theory Spec2Isabelle
  imports Main "HOL-Library.Char_ord" "HOL-Library.List_Lexorder"
    "HOL-Library.Multiset"
    "HOL-Library.Sublist"
begin

section \<open>Removing users and groups from the role bindings of a project\<close>

text \<open>
  The development embeds \<^verbatim>\<open>RemoveFromProjectOptions.Run\<close>, \<^verbatim>\<open>subjectsStrings\<close> and
  \<^verbatim>\<open>roleBindingSorter\<close> of package \<^verbatim>\<open>policy\<close>. Go strings are \<^typ>\<open>string\<close>; their
  comparison \<^verbatim>\<open><\<close> is the bytewise lexicographic order, which is the order of
  \<^typ>\<open>char list\<close> given by the two library theories imported above.
\<close>

subsection \<open>Data model\<close>

text \<open>The fields of \<^verbatim>\<open>rbacv1.Subject\<close>, \<^verbatim>\<open>rbacv1.RoleRef\<close> and \<^verbatim>\<open>rbacv1.RoleBinding\<close> that the
  code reads or writes. A kind is a Go string; the three named kinds are constants.\<close>

record Subject =
  Subject_Kind :: string
  Subject_Namespace :: string
  Subject_Name :: string

definition ServiceAccountKind :: string where
  "ServiceAccountKind = ''ServiceAccount''"

definition UserKind :: string where
  "UserKind = ''User''"

definition GroupKind :: string where
  "GroupKind = ''Group''"

record RoleRef =
  RoleRef_Kind :: string
  RoleRef_Name :: string

record RoleBinding =
  Name :: string
  Namespace :: string
  RoleRef :: RoleRef
  Subjects :: "Subject list"

text \<open>\<^verbatim>\<open>rbacv1.RoleBindingList\<close> with the two \<^verbatim>\<open>TypeMeta\<close> fields that \<^verbatim>\<open>Run\<close> sets.\<close>

record RoleBindingList =
  List_Kind :: string
  List_APIVersion :: string
  Items :: "RoleBinding list"

text \<open>An error value of a collaborator; \<^verbatim>\<open>Run\<close> only passes it on.\<close>

datatype Error = Error string

text \<open>\<^verbatim>\<open>kcmdutil.DryRunStrategy\<close>. \<^verbatim>\<open>Run\<close> compares it with \<^verbatim>\<open>DryRunClient\<close> only: every
  other strategy takes the path that calls the client.\<close>

datatype DryRunStrategy = DryRunNone | DryRunClient | DryRunServer

text \<open>
  Everything \<^verbatim>\<open>Run\<close> does to the outside world is one event of a trace, in the order in
  which it happens: a call of the role binding client (\<^verbatim>\<open>Update\<close> with the namespace and the
  binding, \<^verbatim>\<open>Delete\<close> with the namespace and the binding name), one \<^verbatim>\<open>fmt.Fprintf\<close> to
  \<^verbatim>\<open>o.Out\<close> with the text written, and the call \<^verbatim>\<open>o.Printer.PrintObj\<close> with its object.
\<close>

datatype Event =
    Update string RoleBinding
  | Delete string string
  | Fprintf string
  | PrintObj RoleBindingList

text \<open>
  The client is a collaborator. \<^verbatim>\<open>List\<close> answers for a namespace with an error or the
  bindings; \<^verbatim>\<open>Update\<close> and \<^verbatim>\<open>Delete\<close> answer with an error or \<^verbatim>\<open>nil\<close>, and their answer may
  depend on everything that happened before in the run (the trace so far).
\<close>

record Client =
  RoleBindings_List :: "string \<Rightarrow> Error + RoleBinding list"
  RoleBindings_Update :: "Event list \<Rightarrow> string \<Rightarrow> RoleBinding \<Rightarrow> Error option"
  RoleBindings_Delete :: "Event list \<Rightarrow> string \<Rightarrow> string \<Rightarrow> Error option"

text \<open>\<^verbatim>\<open>RemoveFromProjectOptions\<close>; the printer is its answer to \<^verbatim>\<open>PrintObj\<close>.\<close>

record Options =
  Printer :: "RoleBindingList \<Rightarrow> Error option"
  BindingNamespace :: string
  Client :: Client
  Groups :: "string list"
  Users :: "string list"
  DryRunStrategy :: DryRunStrategy
  Output :: string

text \<open>The local variables of \<^verbatim>\<open>Run\<close> that live across the loop, and the trace.\<close>

record RunState =
  Trace :: "Event list"
  usersRemoved :: "string set"
  groupsRemoved :: "string set"
  sasRemoved :: "string set"
  othersRemoved :: "string set"
  updatedBindings :: "RoleBinding list"

definition initState :: RunState where
  "initState = \<lparr>Trace = [], usersRemoved = {}, groupsRemoved = {}, sasRemoved = {},
     othersRemoved = {}, updatedBindings = []\<rparr>"

text \<open>The observations of a trace: the texts written to \<^verbatim>\<open>o.Out\<close>, and the client calls.\<close>

fun written :: "Event list \<Rightarrow> string list" where
  "written [] = []"
| "written (Fprintf s # es) = s # written es"
| "written (e # es) = written es"

fun isCall :: "Event \<Rightarrow> bool" where
  "isCall (Update ns b) = True"
| "isCall (Delete ns n) = True"
| "isCall e = False"

definition calls :: "Event list \<Rightarrow> Event list" where
  "calls es = filter isCall es"

subsection \<open>The subjects to remove\<close>

text \<open>
  Modelled from the spec: \<^verbatim>\<open>authorizationutil.BuildRBACSubjects\<close>, which is not among the
  sources. The removal request names target users and target groups; only the kinds User
  and Group are removal targets, and these kinds have no namespace component.
\<close>

definition BuildRBACSubjects :: "string list \<Rightarrow> string list \<Rightarrow> Subject list" where
  "BuildRBACSubjects users groups =
     map (\<lambda>user. \<lparr>Subject_Kind = UserKind, Subject_Namespace = [], Subject_Name = user\<rparr>) users @
     map (\<lambda>group. \<lparr>Subject_Kind = GroupKind, Subject_Namespace = [], Subject_Name = group\<rparr>) groups"

text \<open>
  Modelled from the spec: \<^verbatim>\<open>removeSubjects\<close> of package \<^verbatim>\<open>policy\<close>, which is not among
  the sources. It produces a new subject sequence containing every original subject except
  those whose (kind, name) matches a subject to remove, whatever the namespace, in the
  original order. \<^verbatim>\<open>Run\<close> discards its second result, which is left out.
\<close>

fun matchesAny :: "Subject \<Rightarrow> Subject list \<Rightarrow> bool" where
  "matchesAny existingSubject [] = False"
| "matchesAny existingSubject (toRemove # needles) =
     (if Subject_Kind existingSubject = Subject_Kind toRemove \<and>
         Subject_Name existingSubject = Subject_Name toRemove
      then True else matchesAny existingSubject needles)"

fun removeSubjects :: "Subject list \<Rightarrow> Subject list \<Rightarrow> Subject list" where
  "removeSubjects [] needles = []"
| "removeSubjects (existingSubject # haystack) needles =
     (if matchesAny existingSubject needles then removeSubjects haystack needles
      else existingSubject # removeSubjects haystack needles)"

subsection \<open>Classifying subjects\<close>

text \<open>\<^verbatim>\<open>subjectsStrings\<close>: the loop appends to one of four slices, by kind, in the order of
  the cases of the switch.\<close>

fun subjectsStrings_loop ::
  "Subject list \<Rightarrow> string list \<times> string list \<times> string list \<times> string list
     \<Rightarrow> string list \<times> string list \<times> string list \<times> string list" where
  "subjectsStrings_loop [] acc = acc"
| "subjectsStrings_loop (subject # rest) (users, groups, sas, others) =
     subjectsStrings_loop rest
       (if Subject_Kind subject = ServiceAccountKind
          then (users, groups,
                sas @ [Subject_Namespace subject @ ''/'' @ Subject_Name subject], others)
        else if Subject_Kind subject = UserKind
          then (users @ [Subject_Name subject], groups, sas, others)
        else if Subject_Kind subject = GroupKind
          then (users, groups @ [Subject_Name subject], sas, others)
        else (users, groups, sas,
              others @ [Subject_Kind subject @ ''/'' @ Subject_Namespace subject @ ''/'' @
                        Subject_Name subject]))"

definition subjectsStrings ::
  "Subject list \<Rightarrow> string list \<times> string list \<times> string list \<times> string list" where
  "subjectsStrings subjects = subjectsStrings_loop subjects ([], [], [], [])"

subsection \<open>The order of processing\<close>

text \<open>
  \<^verbatim>\<open>sort.Sort(sort.Reverse(roleBindingSorter(items)))\<close>. \<^verbatim>\<open>Less\<close> compares the names, and
  \<^verbatim>\<open>sort.Reverse\<close> swaps its arguments. The result is the rearrangement of the items in
  which no item comes before one with a greater name. The model is the sort by insertion;
  among items of the same name, whose order \<^verbatim>\<open>sort.Sort\<close> does not promise, it keeps the
  order of the input. Binding names of one namespace are unique, so that the listed items
  have distinct names; for such items the sorted order is the only one there is.
\<close>

definition Less :: "RoleBinding \<Rightarrow> RoleBinding \<Rightarrow> bool" where
  "Less a b = (Name a < Name b)"

definition Reverse_Less :: "RoleBinding \<Rightarrow> RoleBinding \<Rightarrow> bool" where
  "Reverse_Less a b = Less b a"

fun insertReverse :: "RoleBinding \<Rightarrow> RoleBinding list \<Rightarrow> RoleBinding list" where
  "insertReverse x [] = [x]"
| "insertReverse x (y # ys) =
     (if Reverse_Less y x then y # insertReverse x ys else x # y # ys)"

fun sortReverse :: "RoleBinding list \<Rightarrow> RoleBinding list" where
  "sortReverse [] = []"
| "sortReverse (x # xs) = insertReverse x (sortReverse xs)"

subsection \<open>The report lines\<close>

text \<open>\<^verbatim>\<open>%v\<close> of a slice of strings: the elements between brackets, separated by spaces.\<close>

fun joinSpace :: "string list \<Rightarrow> string" where
  "joinSpace [] = []"
| "joinSpace [x] = x"
| "joinSpace (x # y # ys) = x @ '' '' @ joinSpace (y # ys)"

definition formatV :: "string list \<Rightarrow> string" where
  "formatV xs = ''['' @ joinSpace xs @ '']''"

text \<open>\<^verbatim>\<open>diff.List()\<close> of a \<^verbatim>\<open>sets.String\<close> is the sorted list of its elements.\<close>

definition setList :: "string set \<Rightarrow> string list" where
  "setList A = sorted_list_of_set A"

definition dryRunText :: "Options \<Rightarrow> string" where
  "dryRunText opts = (if DryRunStrategy opts = DryRunClient then '' (dry client run)'' else [])"

text \<open>The format \<^verbatim>\<open>"Removing %s from <category> %v in project %s%s.\n"\<close>.\<close>

definition removingLine :: "Options \<Rightarrow> string \<Rightarrow> string \<Rightarrow> string set \<Rightarrow> string" where
  "removingLine opts roleDisplayName category diff =
     ''Removing '' @ roleDisplayName @ '' from '' @ category @ '' '' @ formatV (setList diff) @
     '' in project '' @ BindingNamespace opts @ dryRunText opts @ ''.'' @ [CHR 0x0A]"

text \<open>The format \<^verbatim>\<open>"<Category> %v were not bound to roles in project %s%s.\n"\<close>.\<close>

definition notBoundLine :: "Options \<Rightarrow> string \<Rightarrow> string set \<Rightarrow> string" where
  "notBoundLine opts category diff =
     category @ '' '' @ formatV (setList diff) @ '' were not bound to roles in project '' @
     BindingNamespace opts @ dryRunText opts @ ''.'' @ [CHR 0x0A]"

definition roleDisplayName :: "RoleBinding \<Rightarrow> string" where
  "roleDisplayName currBinding =
     (if RoleRef_Kind (RoleRef currBinding) = ''ClusterRole''
      then RoleRef_Name (RoleRef currBinding)
      else Namespace currBinding @ ''/'' @ RoleRef_Name (RoleRef currBinding))"

subsection \<open>The loop body and the run\<close>

text \<open>The four blocks that report what a binding lost and add it to the aggregate sets.\<close>

definition reportUsers :: "Options \<Rightarrow> string \<Rightarrow> string set \<Rightarrow> RunState \<Rightarrow> RunState" where
  "reportUsers opts rdn diff st =
     (if diff \<noteq> {}
      then st\<lparr>Trace := Trace st @ [Fprintf (removingLine opts rdn ''users'' diff)],
              usersRemoved := usersRemoved st \<union> diff\<rparr>
      else st)"

definition reportGroups :: "Options \<Rightarrow> string \<Rightarrow> string set \<Rightarrow> RunState \<Rightarrow> RunState" where
  "reportGroups opts rdn diff st =
     (if diff \<noteq> {}
      then st\<lparr>Trace := Trace st @ [Fprintf (removingLine opts rdn ''groups'' diff)],
              groupsRemoved := groupsRemoved st \<union> diff\<rparr>
      else st)"

definition reportSAs :: "Options \<Rightarrow> string \<Rightarrow> string set \<Rightarrow> RunState \<Rightarrow> RunState" where
  "reportSAs opts rdn diff st =
     (if diff \<noteq> {}
      then st\<lparr>Trace := Trace st @ [Fprintf (removingLine opts rdn ''serviceaccounts'' diff)],
              sasRemoved := sasRemoved st \<union> diff\<rparr>
      else st)"

definition reportOthers :: "Options \<Rightarrow> string \<Rightarrow> string set \<Rightarrow> RunState \<Rightarrow> RunState" where
  "reportOthers opts rdn diff st =
     (if diff \<noteq> {}
      then st\<lparr>Trace := Trace st @ [Fprintf (removingLine opts rdn ''subjects'' diff)],
              othersRemoved := othersRemoved st \<union> diff\<rparr>
      else st)"

text \<open>The update or delete of one binding, in a run that is not a client dry run: the call
  is added to the trace, and the answer of the client is returned with the state.\<close>

definition dispatch :: "Options \<Rightarrow> RoleBinding \<Rightarrow> RunState \<Rightarrow> RunState \<times> Error option" where
  "dispatch opts currBinding st =
     (if DryRunStrategy opts \<noteq> DryRunClient then
        (if length (Subjects currBinding) > 0
         then (st\<lparr>Trace := Trace st @ [Update (BindingNamespace opts) currBinding]\<rparr>,
               RoleBindings_Update (Client opts) (Trace st) (BindingNamespace opts) currBinding)
         else (st\<lparr>Trace := Trace st @ [Delete (BindingNamespace opts) (Name currBinding)]\<rparr>,
               RoleBindings_Delete (Client opts) (Trace st) (BindingNamespace opts) (Name currBinding)))
      else (st, None))"

text \<open>
  One iteration of the loop over the sorted items. The result is the state with
  \<^verbatim>\<open>Some err\<close> where the body returns \<^verbatim>\<open>err\<close> from \<^verbatim>\<open>Run\<close>, and with \<^verbatim>\<open>None\<close> where it goes
  on to the next item (by \<^verbatim>\<open>continue\<close> or at its end).
\<close>

definition loopBody :: "Options \<Rightarrow> RoleBinding \<Rightarrow> RunState \<Rightarrow> RunState \<times> Error option" where
  "loopBody opts binding st =
     (let subjectsToRemove = BuildRBACSubjects (Users opts) (Groups opts);
          originalSubjects = Subjects binding;
          (oldUsers, oldGroups, oldSAs, oldOthers) = subjectsStrings originalSubjects;
          currBinding = binding\<lparr>Subjects := removeSubjects (Subjects binding) subjectsToRemove\<rparr>;
          (newUsers, newGroups, newSAs, newOthers) = subjectsStrings (Subjects currBinding)
      in
        if length (Subjects currBinding) = length originalSubjects then (st, None)
        else if length (Output opts) > 0
          then (st\<lparr>updatedBindings := updatedBindings st @ [currBinding]\<rparr>, None)
        else
          (case dispatch opts currBinding st of
             (st1, Some err) \<Rightarrow> (st1, Some err)
           | (st1, None) \<Rightarrow>
               (reportOthers opts (roleDisplayName currBinding) (set oldOthers - set newOthers)
                 (reportSAs opts (roleDisplayName currBinding) (set oldSAs - set newSAs)
                   (reportGroups opts (roleDisplayName currBinding) (set oldGroups - set newGroups)
                     (reportUsers opts (roleDisplayName currBinding) (set oldUsers - set newUsers)
                        st1))),
                None)))"

fun loop :: "Options \<Rightarrow> RoleBinding list \<Rightarrow> RunState \<Rightarrow> RunState \<times> Error option" where
  "loop opts [] st = (st, None)"
| "loop opts (currBinding # rest) st =
     (case loopBody opts currBinding st of
        (st1, Some err) \<Rightarrow> (st1, Some err)
      | (st1, None) \<Rightarrow> loop opts rest st1)"

text \<open>What follows the loop in the textual mode: the two lines on requested names that
  were bound nowhere.\<close>

definition reportNotBound :: "Options \<Rightarrow> RunState \<Rightarrow> RunState" where
  "reportNotBound opts st =
     (let st1 = (if set (Users opts) - usersRemoved st \<noteq> {}
                 then st\<lparr>Trace := Trace st @
                        [Fprintf (notBoundLine opts ''Users'' (set (Users opts) - usersRemoved st))]\<rparr>
                 else st)
      in if set (Groups opts) - groupsRemoved st1 \<noteq> {}
         then st1\<lparr>Trace := Trace st1 @
                [Fprintf (notBoundLine opts ''Groups'' (set (Groups opts) - groupsRemoved st1))]\<rparr>
         else st1)"

definition Run :: "Options \<Rightarrow> RunState \<times> Error option" where
  "Run opts =
     (case RoleBindings_List (Client opts) (BindingNamespace opts) of
        Inl err \<Rightarrow> (initState, Some err)
      | Inr items \<Rightarrow>
          (case loop opts (sortReverse items) initState of
             (st, Some err) \<Rightarrow> (st, Some err)
           | (st, None) \<Rightarrow>
               if length (Output opts) > 0
               then (let obj = \<lparr>List_Kind = ''List'', List_APIVersion = ''v1'',
                                  Items = updatedBindings st\<rparr>
                     in (st\<lparr>Trace := Trace st @ [PrintObj obj]\<rparr>, Printer opts obj))
               else (reportNotBound opts st, None)))"

subsection \<open>Notions used in the statements\<close>

text \<open>A subject is targeted by a request when it is a user of a requested user name or a
  group of a requested group name.\<close>

definition targeted :: "string list \<Rightarrow> string list \<Rightarrow> Subject \<Rightarrow> bool" where
  "targeted users groups s =
     ((Subject_Kind s = UserKind \<and> Subject_Name s \<in> set users) \<or>
      (Subject_Kind s = GroupKind \<and> Subject_Name s \<in> set groups))"

text \<open>The subjects that the loop body leaves in a binding, and the binding carrying them.\<close>

definition remainingSubjects :: "Options \<Rightarrow> RoleBinding \<Rightarrow> Subject list" where
  "remainingSubjects opts b =
     removeSubjects (Subjects b) (BuildRBACSubjects (Users opts) (Groups opts))"

definition filteredBinding :: "Options \<Rightarrow> RoleBinding \<Rightarrow> RoleBinding" where
  "filteredBinding opts b = b\<lparr>Subjects := remainingSubjects opts b\<rparr>"

text \<open>The four differences that the loop body computes for a binding: the strings of the
  original subjects that are not strings of the remaining subjects, by category.\<close>

definition usersDiff :: "Options \<Rightarrow> RoleBinding \<Rightarrow> string set" where
  "usersDiff opts b =
     (case subjectsStrings (Subjects b) of (oldUsers, oldGroups, oldSAs, oldOthers) \<Rightarrow>
      case subjectsStrings (remainingSubjects opts b) of (newUsers, newGroups, newSAs, newOthers) \<Rightarrow>
        set oldUsers - set newUsers)"

definition groupsDiff :: "Options \<Rightarrow> RoleBinding \<Rightarrow> string set" where
  "groupsDiff opts b =
     (case subjectsStrings (Subjects b) of (oldUsers, oldGroups, oldSAs, oldOthers) \<Rightarrow>
      case subjectsStrings (remainingSubjects opts b) of (newUsers, newGroups, newSAs, newOthers) \<Rightarrow>
        set oldGroups - set newGroups)"

definition sasDiff :: "Options \<Rightarrow> RoleBinding \<Rightarrow> string set" where
  "sasDiff opts b =
     (case subjectsStrings (Subjects b) of (oldUsers, oldGroups, oldSAs, oldOthers) \<Rightarrow>
      case subjectsStrings (remainingSubjects opts b) of (newUsers, newGroups, newSAs, newOthers) \<Rightarrow>
        set oldSAs - set newSAs)"

definition othersDiff :: "Options \<Rightarrow> RoleBinding \<Rightarrow> string set" where
  "othersDiff opts b =
     (case subjectsStrings (Subjects b) of (oldUsers, oldGroups, oldSAs, oldOthers) \<Rightarrow>
      case subjectsStrings (remainingSubjects opts b) of (newUsers, newGroups, newSAs, newOthers) \<Rightarrow>
        set oldOthers - set newOthers)"

text \<open>The client call that the loop body makes for a binding in a run that is not a client
  dry run, and the answer of the client to it after the trace \<open>tr\<close>.\<close>

definition mutation :: "Options \<Rightarrow> RoleBinding \<Rightarrow> Event" where
  "mutation opts b =
     (if 0 < length (remainingSubjects opts b)
      then Update (BindingNamespace opts) (filteredBinding opts b)
      else Delete (BindingNamespace opts) (Name b))"

definition answer :: "Options \<Rightarrow> RoleBinding \<Rightarrow> Event list \<Rightarrow> Error option" where
  "answer opts b tr =
     (if 0 < length (remainingSubjects opts b)
      then RoleBindings_Update (Client opts) tr (BindingNamespace opts) (filteredBinding opts b)
      else RoleBindings_Delete (Client opts) tr (BindingNamespace opts) (Name b))"

text \<open>The name of the binding that a client call is about.\<close>

fun callName :: "Event \<Rightarrow> string" where
  "callName (Update ns b) = Name b"
| "callName (Delete ns n) = n"
| "callName e = []"

text \<open>The lines that the loop body writes for a binding: one for each category whose
  difference is not empty, in the order users, groups, service accounts, others.\<close>

definition bindingLines :: "Options \<Rightarrow> RoleBinding \<Rightarrow> string list" where
  "bindingLines opts b =
     (if usersDiff opts b \<noteq> {}
      then [removingLine opts (roleDisplayName b) ''users'' (usersDiff opts b)] else []) @
     (if groupsDiff opts b \<noteq> {}
      then [removingLine opts (roleDisplayName b) ''groups'' (groupsDiff opts b)] else []) @
     (if sasDiff opts b \<noteq> {}
      then [removingLine opts (roleDisplayName b) ''serviceaccounts'' (sasDiff opts b)] else []) @
     (if othersDiff opts b \<noteq> {}
      then [removingLine opts (roleDisplayName b) ''subjects'' (othersDiff opts b)] else [])"

text \<open>The lines after the loop, for the aggregate sets \<open>U\<close> of users and \<open>G\<close> of groups.\<close>

definition notBoundLines :: "Options \<Rightarrow> string set \<Rightarrow> string set \<Rightarrow> string list" where
  "notBoundLines opts U G =
     (if set (Users opts) - U \<noteq> {}
      then [notBoundLine opts ''Users'' (set (Users opts) - U)] else []) @
     (if set (Groups opts) - G \<noteq> {}
      then [notBoundLine opts ''Groups'' (set (Groups opts) - G)] else [])"

text \<open>A report line with the dry run text put before its final period and line feed.\<close>

definition insertDryRunText :: "string \<Rightarrow> string" where
  "insertDryRunText line =
     take (length line - 2) line @ '' (dry client run)'' @ drop (length line - 2) line"

text \<open>The state after the four report blocks of the loop body for a binding.\<close>

definition reported :: "Options \<Rightarrow> RoleBinding \<Rightarrow> RunState \<Rightarrow> RunState" where
  "reported opts b st =
     st\<lparr>Trace := Trace st @ map Fprintf (bindingLines opts b),
        usersRemoved := usersRemoved st \<union> usersDiff opts b,
        groupsRemoved := groupsRemoved st \<union> groupsDiff opts b,
        sasRemoved := sasRemoved st \<union> sasDiff opts b,
        othersRemoved := othersRemoved st \<union> othersDiff opts b\<rparr>"

subsection \<open>Example inputs\<close>

text \<open>
  Subjects, bindings, clients and options of a project \<open>demo\<close> on which the statements
  are evaluated: three bindings that each lose the user alice, one binding that the request
  does not touch, a client that accepts every call, one that refuses every update, one
  whose listing fails, and the options of a dispatching run, of a client dry run, of a run
  with an output format and of a request that matches nothing.
\<close>

definition alice :: Subject where
  "alice = \<lparr>Subject_Kind = ''User'', Subject_Namespace = [], Subject_Name = ''alice''\<rparr>"

definition bob :: Subject where
  "bob = \<lparr>Subject_Kind = ''User'', Subject_Namespace = [], Subject_Name = ''bob''\<rparr>"

definition devs :: Subject where
  "devs = \<lparr>Subject_Kind = ''Group'', Subject_Namespace = [], Subject_Name = ''devs''\<rparr>"

definition builder :: Subject where
  "builder = \<lparr>Subject_Kind = ''ServiceAccount'', Subject_Namespace = ''demo'',
     Subject_Name = ''builder''\<rparr>"

definition robot :: Subject where
  "robot = \<lparr>Subject_Kind = ''Robot'', Subject_Namespace = ''demo'', Subject_Name = ''alice''\<rparr>"

definition binding_a :: RoleBinding where
  "binding_a = \<lparr>Name = ''a'', Namespace = ''demo'',
     RoleRef = \<lparr>RoleRef_Kind = ''ClusterRole'', RoleRef_Name = ''admin''\<rparr>,
     Subjects = [alice, bob]\<rparr>"

definition binding_b :: RoleBinding where
  "binding_b = \<lparr>Name = ''b'', Namespace = ''demo'',
     RoleRef = \<lparr>RoleRef_Kind = ''Role'', RoleRef_Name = ''view''\<rparr>,
     Subjects = [builder, devs, alice]\<rparr>"

definition binding_c :: RoleBinding where
  "binding_c = \<lparr>Name = ''c'', Namespace = ''demo'',
     RoleRef = \<lparr>RoleRef_Kind = ''ClusterRole'', RoleRef_Name = ''edit''\<rparr>,
     Subjects = [alice, alice]\<rparr>"

definition binding_d :: RoleBinding where
  "binding_d = \<lparr>Name = ''d'', Namespace = ''demo'',
     RoleRef = \<lparr>RoleRef_Kind = ''ClusterRole'', RoleRef_Name = ''view''\<rparr>,
     Subjects = [bob, builder]\<rparr>"

definition okClient :: Client where
  "okClient = \<lparr>RoleBindings_List = (\<lambda>ns. Inr [binding_a, binding_c, binding_b]),
     RoleBindings_Update = (\<lambda>tr ns b. None),
     RoleBindings_Delete = (\<lambda>tr ns n. None)\<rparr>"

definition liveOpts :: Options where
  "liveOpts = \<lparr>Printer = (\<lambda>obj. None), BindingNamespace = ''demo'', Client = okClient,
     Groups = [''devs'', ''ops''], Users = [''alice'', ''carol''],
     DryRunStrategy = DryRunNone, Output = []\<rparr>"

definition failClient :: Client where
  "failClient = \<lparr>RoleBindings_List = (\<lambda>ns. Inr [binding_a, binding_c, binding_b]),
     RoleBindings_Update = (\<lambda>tr ns b. Some (Error ''conflict'')),
     RoleBindings_Delete = (\<lambda>tr ns n. None)\<rparr>"

definition failOpts :: Options where
  "failOpts = liveOpts\<lparr>Client := failClient\<rparr>"

definition downClient :: Client where
  "downClient = \<lparr>RoleBindings_List = (\<lambda>ns. Inl (Error ''unavailable'')),
     RoleBindings_Update = (\<lambda>tr ns b. None),
     RoleBindings_Delete = (\<lambda>tr ns n. None)\<rparr>"

definition downOpts :: Options where
  "downOpts = liveOpts\<lparr>Client := downClient\<rparr>"

definition dryOpts :: Options where
  "dryOpts = liveOpts\<lparr>DryRunStrategy := DryRunClient\<rparr>"

definition yamlOpts :: Options where
  "yamlOpts = liveOpts\<lparr>Output := ''yaml''\<rparr>"

definition strangerOpts :: Options where
  "strangerOpts = liveOpts\<lparr>Users := [''zoe''], Groups := []\<rparr>"

section \<open>Properties\<close>

subsection \<open>Traces\<close>

lemma written_append: "written (xs @ ys) = written xs @ written ys"
  by (induction xs rule: written.induct) simp_all

lemma written_map_Fprintf: "written (map Fprintf ls) = ls"
  by (induction ls) simp_all

lemma calls_append: "calls (xs @ ys) = calls xs @ calls ys"
  by (simp add: calls_def)

lemma calls_map_Fprintf: "calls (map Fprintf ls) = []"
  by (induction ls) (simp_all add: calls_def)

subsection \<open>The remover and the classification\<close>

lemma matchesAny_iff:
  "matchesAny s needles \<longleftrightarrow>
     (\<exists>n \<in> set needles. Subject_Kind s = Subject_Kind n \<and> Subject_Name s = Subject_Name n)"
  by (induction needles) auto

lemma matchesAny_Build:
  "matchesAny s (BuildRBACSubjects users groups) \<longleftrightarrow> targeted users groups s"
proof -
  have app: "matchesAny s (xs @ ys) \<longleftrightarrow> matchesAny s xs \<or> matchesAny s ys" for xs ys
    by (induction xs) simp_all
  have us: "matchesAny s (map (\<lambda>user. \<lparr>Subject_Kind = UserKind, Subject_Namespace = [],
              Subject_Name = user\<rparr>) users) \<longleftrightarrow>
            Subject_Kind s = UserKind \<and> Subject_Name s \<in> set users"
    by (induction users) auto
  have gs: "matchesAny s (map (\<lambda>group. \<lparr>Subject_Kind = GroupKind, Subject_Namespace = [],
              Subject_Name = group\<rparr>) groups) \<longleftrightarrow>
            Subject_Kind s = GroupKind \<and> Subject_Name s \<in> set groups"
    by (induction groups) auto
  show ?thesis
    by (simp add: BuildRBACSubjects_def app us gs targeted_def)
qed

lemma removeSubjects_filter:
  "removeSubjects haystack needles = filter (\<lambda>s. \<not> matchesAny s needles) haystack"
  by (induction haystack) simp_all

lemma remainingSubjects_filter:
  "remainingSubjects opts b =
     filter (\<lambda>s. \<not> targeted (Users opts) (Groups opts) s) (Subjects b)"
  by (simp add: remainingSubjects_def removeSubjects_filter matchesAny_Build)

lemma subjectsStrings_loop_eq:
  "subjectsStrings_loop ss (us, gs, sas, os) =
     (us @ map Subject_Name (filter (\<lambda>s. Subject_Kind s = UserKind) ss),
      gs @ map Subject_Name (filter (\<lambda>s. Subject_Kind s = GroupKind) ss),
      sas @ map (\<lambda>s. Subject_Namespace s @ ''/'' @ Subject_Name s)
              (filter (\<lambda>s. Subject_Kind s = ServiceAccountKind) ss),
      os @ map (\<lambda>s. Subject_Kind s @ ''/'' @ Subject_Namespace s @ ''/'' @ Subject_Name s)
             (filter (\<lambda>s. Subject_Kind s \<noteq> ServiceAccountKind \<and> Subject_Kind s \<noteq> UserKind \<and>
                          Subject_Kind s \<noteq> GroupKind) ss))"
  by (induction ss arbitrary: us gs sas os)
     (simp_all add: ServiceAccountKind_def UserKind_def GroupKind_def)

lemma subjectsStrings_eq:
  "subjectsStrings ss =
     (map Subject_Name (filter (\<lambda>s. Subject_Kind s = UserKind) ss),
      map Subject_Name (filter (\<lambda>s. Subject_Kind s = GroupKind) ss),
      map (\<lambda>s. Subject_Namespace s @ ''/'' @ Subject_Name s)
              (filter (\<lambda>s. Subject_Kind s = ServiceAccountKind) ss),
      map (\<lambda>s. Subject_Kind s @ ''/'' @ Subject_Namespace s @ ''/'' @ Subject_Name s)
             (filter (\<lambda>s. Subject_Kind s \<noteq> ServiceAccountKind \<and> Subject_Kind s \<noteq> UserKind \<and>
                          Subject_Kind s \<noteq> GroupKind) ss))"
  by (simp add: subjectsStrings_def subjectsStrings_loop_eq)

lemma usersDiff_eq:
  "usersDiff opts b =
     {n \<in> set (Users opts). \<exists>s \<in> set (Subjects b). Subject_Kind s = UserKind \<and> Subject_Name s = n}"
  by (auto simp: usersDiff_def subjectsStrings_eq remainingSubjects_filter targeted_def
        UserKind_def GroupKind_def)

lemma groupsDiff_eq:
  "groupsDiff opts b =
     {n \<in> set (Groups opts). \<exists>s \<in> set (Subjects b). Subject_Kind s = GroupKind \<and> Subject_Name s = n}"
  by (auto simp: groupsDiff_def subjectsStrings_eq remainingSubjects_filter targeted_def
        UserKind_def GroupKind_def)

lemma sasDiff_empty: "sasDiff opts b = {}"
  by (auto simp: sasDiff_def subjectsStrings_eq remainingSubjects_filter targeted_def
        UserKind_def GroupKind_def ServiceAccountKind_def)

lemma othersDiff_empty: "othersDiff opts b = {}"
  by (auto simp: othersDiff_def subjectsStrings_eq remainingSubjects_filter targeted_def
        UserKind_def GroupKind_def ServiceAccountKind_def)


subsection \<open>The loop body\<close>

lemma report_chain:
  "reportOthers opts (roleDisplayName b) (othersDiff opts b)
     (reportSAs opts (roleDisplayName b) (sasDiff opts b)
       (reportGroups opts (roleDisplayName b) (groupsDiff opts b)
         (reportUsers opts (roleDisplayName b) (usersDiff opts b) st))) = reported opts b st"
  by (simp add: reportOthers_def reportSAs_def reportGroups_def reportUsers_def reported_def
        bindingLines_def)

lemma roleDisplayName_filtered: "roleDisplayName (b\<lparr>Subjects := ss\<rparr>) = roleDisplayName b"
  by (simp add: roleDisplayName_def)

lemma dispatch_filtered:
  "dispatch opts (filteredBinding opts b) st =
     (if DryRunStrategy opts \<noteq> DryRunClient
      then (st\<lparr>Trace := Trace st @ [mutation opts b]\<rparr>, answer opts b (Trace st))
      else (st, None))"
  by (simp add: dispatch_def mutation_def answer_def filteredBinding_def)

lemma loopBody_cases:
  "loopBody opts b st =
     (if length (remainingSubjects opts b) = length (Subjects b) then (st, None)
      else if 0 < length (Output opts)
        then (st\<lparr>updatedBindings := updatedBindings st @ [filteredBinding opts b]\<rparr>, None)
      else if DryRunStrategy opts = DryRunClient then (reported opts b st, None)
      else (case answer opts b (Trace st) of
              Some err \<Rightarrow> (st\<lparr>Trace := Trace st @ [mutation opts b]\<rparr>, Some err)
            | None \<Rightarrow> (reported opts b (st\<lparr>Trace := Trace st @ [mutation opts b]\<rparr>), None)))"
proof -
  obtain ou og os oo where old: "subjectsStrings (Subjects b) = (ou, og, os, oo)"
    by (metis prod_cases4)
  obtain nu ng ns no where new: "subjectsStrings (remainingSubjects opts b) = (nu, ng, ns, no)"
    by (metis prod_cases4)
  have diffs: "usersDiff opts b = set ou - set nu" "groupsDiff opts b = set og - set ng"
    "sasDiff opts b = set os - set ns" "othersDiff opts b = set oo - set no"
    by (simp_all add: usersDiff_def groupsDiff_def sasDiff_def othersDiff_def old new)
  have new': "subjectsStrings (removeSubjects (Subjects b)
       (BuildRBACSubjects (Users opts) (Groups opts))) = (nu, ng, ns, no)"
    using new by (simp add: remainingSubjects_def)
  have rc: "reportOthers opts (roleDisplayName b) (set oo - set no)
     (reportSAs opts (roleDisplayName b) (set os - set ns)
       (reportGroups opts (roleDisplayName b) (set og - set ng)
         (reportUsers opts (roleDisplayName b) (set ou - set nu) st1))) = reported opts b st1"
    for st1
    using report_chain[of opts b st1] by (simp add: diffs)
  have body: "loopBody opts b st =
     (if length (remainingSubjects opts b) = length (Subjects b) then (st, None)
      else if 0 < length (Output opts)
        then (st\<lparr>updatedBindings := updatedBindings st @ [filteredBinding opts b]\<rparr>, None)
      else (case dispatch opts (filteredBinding opts b) st of
              (st1, Some err) \<Rightarrow> (st1, Some err)
            | (st1, None) \<Rightarrow> (reported opts b st1, None)))"
    by (simp add: loopBody_def Let_def old new' roleDisplayName_filtered rc
          filteredBinding_def remainingSubjects_def)
  show ?thesis
    unfolding body dispatch_filtered by (simp split: option.splits)
qed

lemma unchanged_iff:
  "length (remainingSubjects opts b) = length (Subjects b) \<longleftrightarrow>
     (\<forall>s \<in> set (Subjects b). \<not> targeted (Users opts) (Groups opts) s)"
proof -
  have "length (filter P xs) = length xs \<longleftrightarrow> (\<forall>x \<in> set xs. P x)" for P and xs :: "Subject list"
  proof (induction xs)
    case Nil
    then show ?case by simp
  next
    case (Cons x xs)
    have "length (filter P xs) \<noteq> Suc (length xs)"
      by (metis length_filter_le Suc_n_not_le_n)
    then show ?case using Cons by auto
  qed
  then show ?thesis by (simp add: remainingSubjects_filter)
qed

lemma unchanged_iff_eq:
  "length (remainingSubjects opts b) = length (Subjects b) \<longleftrightarrow>
     remainingSubjects opts b = Subjects b"
  by (simp only: unchanged_iff) (simp add: remainingSubjects_filter filter_id_conv)

lemma unchanged_diffs:
  assumes "length (remainingSubjects opts b) = length (Subjects b)"
  shows "usersDiff opts b = {}" "groupsDiff opts b = {}"
  using assms unfolding unchanged_iff usersDiff_eq groupsDiff_eq targeted_def by auto

lemma unchanged_bindingLines:
  "length (remainingSubjects opts b) = length (Subjects b) \<Longrightarrow> bindingLines opts b = []"
  by (simp add: bindingLines_def unchanged_diffs sasDiff_empty othersDiff_empty)

lemma changed_diff:
  assumes "length (remainingSubjects opts b) \<noteq> length (Subjects b)"
  shows "usersDiff opts b \<noteq> {} \<or> groupsDiff opts b \<noteq> {}"
  using assms unfolding unchanged_iff usersDiff_eq groupsDiff_eq targeted_def by auto

lemma changed_bindingLines:
  "length (remainingSubjects opts b) \<noteq> length (Subjects b) \<Longrightarrow> bindingLines opts b \<noteq> []"
  using changed_diff[of opts b] by (auto simp: bindingLines_def)

lemma unchanged_reported:
  "length (remainingSubjects opts b) = length (Subjects b) \<Longrightarrow> reported opts b st = st"
  by (simp add: reported_def unchanged_bindingLines unchanged_diffs sasDiff_empty othersDiff_empty)

lemma callName_mutation: "callName (mutation opts b) = Name b"
  by (simp add: mutation_def filteredBinding_def)

lemma isCall_mutation: "isCall (mutation opts b)"
  by (simp add: mutation_def)

lemma calls_reported: "calls (Trace (reported opts b st)) = calls (Trace st)"
  by (simp add: reported_def calls_append calls_map_Fprintf)

lemma written_reported:
  "written (Trace (reported opts b st)) = written (Trace st) @ bindingLines opts b"
  by (simp add: reported_def written_append written_map_Fprintf)

lemma reported_fields:
  "usersRemoved (reported opts b st) = usersRemoved st \<union> usersDiff opts b"
  "groupsRemoved (reported opts b st) = groupsRemoved st \<union> groupsDiff opts b"
  "sasRemoved (reported opts b st) = sasRemoved st"
  "othersRemoved (reported opts b st) = othersRemoved st"
  "updatedBindings (reported opts b st) = updatedBindings st"
  by (simp_all add: reported_def sasDiff_empty othersDiff_empty)

lemma written_mutation: "written (tr @ [mutation opts b]) = written tr"
  by (simp add: written_append mutation_def)

lemma calls_mutation: "calls (tr @ [mutation opts b]) = calls tr @ [mutation opts b]"
  by (simp add: calls_def isCall_mutation)

subsection \<open>The loop\<close>

lemma loop_append:
  "loop opts (xs @ ys) st =
     (case loop opts xs st of
        (st1, Some err) \<Rightarrow> (st1, Some err)
      | (st1, None) \<Rightarrow> loop opts ys st1)"
  by (induction xs arbitrary: st) (simp_all split: prod.splits option.splits)

text \<open>The loop when an output format is set: it only collects the changed bindings.\<close>
lemma loop_accumulate:
  "0 < length (Output opts) \<Longrightarrow>
   loop opts bs st =
     (st\<lparr>updatedBindings := updatedBindings st @
          map (filteredBinding opts)
            (filter (\<lambda>b. length (remainingSubjects opts b) \<noteq> length (Subjects b)) bs)\<rparr>, None)"
  by (induction bs arbitrary: st) (simp_all add: loopBody_cases)

text \<open>The loop of a client dry run never fails and never calls the client.\<close>
lemma loop_dry:
  "Output opts = [] \<Longrightarrow> DryRunStrategy opts = DryRunClient \<Longrightarrow>
   snd (loop opts bs st) = None \<and> calls (Trace (fst (loop opts bs st))) = calls (Trace st)"
  by (induction bs arbitrary: st) (simp_all add: loopBody_cases calls_reported)

text \<open>What a loop that writes text has done when it reaches its end.\<close>
lemma loop_textual_ok:
  "Output opts = [] \<Longrightarrow> loop opts bs st = (st', None) \<Longrightarrow>
   written (Trace st') = written (Trace st) @ concat (map (bindingLines opts) bs) \<and>
   usersRemoved st' = usersRemoved st \<union> \<Union> (usersDiff opts ` set bs) \<and>
   groupsRemoved st' = groupsRemoved st \<union> \<Union> (groupsDiff opts ` set bs) \<and>
   sasRemoved st' = sasRemoved st \<and> othersRemoved st' = othersRemoved st \<and>
   updatedBindings st' = updatedBindings st \<and>
   calls (Trace st') = calls (Trace st) @
     (if DryRunStrategy opts = DryRunClient then []
      else map (mutation opts)
             (filter (\<lambda>b. length (remainingSubjects opts b) \<noteq> length (Subjects b)) bs))"
proof (induction bs arbitrary: st)
  case Nil
  then show ?case by simp
next
  case (Cons b bs)
  from Cons.prems(2) obtain st1 where
    body: "loopBody opts b st = (st1, None)" and rest: "loop opts bs st1 = (st', None)"
    by (auto split: prod.splits option.splits)
  have st1: "st1 = (if length (remainingSubjects opts b) = length (Subjects b) then st
               else if DryRunStrategy opts = DryRunClient then reported opts b st
               else reported opts b (st\<lparr>Trace := Trace st @ [mutation opts b]\<rparr>))"
    using body Cons.prems(1) by (auto simp: loopBody_cases split: if_splits option.splits)
  note IH = Cons.IH[OF Cons.prems(1) rest]
  show ?case
  proof (cases "length (remainingSubjects opts b) = length (Subjects b)")
    case True
    then show ?thesis using IH st1
      by (simp add: unchanged_bindingLines unchanged_diffs)
  next
    case False
    then show ?thesis using IH st1
      by (auto simp: written_reported calls_reported written_mutation calls_mutation
            reported_fields)
  qed
qed

text \<open>The body makes at most one client call, the mutation of its binding.\<close>

lemma loopBody_calls:
  "calls (Trace (fst (loopBody opts b st))) = calls (Trace st) \<or>
   calls (Trace (fst (loopBody opts b st))) = calls (Trace st) @ [mutation opts b]"
  by (simp add: loopBody_cases calls_reported calls_mutation split: option.splits)

subsection \<open>The contract of the remover\<close>

lemma count_list_filter:
  "count_list (filter P xs) x = (if P x then count_list xs x else 0)"
  by (induction xs) auto

text \<open>
  Claim C2. For every subject sequence and every request, the remover returns the original
  sequence without the targeted subjects: without every user subject whose name is a
  requested user name and every group subject whose name is a requested group name,
  whatever their namespace. A targeted subject occurs in the result zero times, however
  often it occurred before; every other subject occurs as often as before; and the result
  is a subsequence of the original, so the survivors keep their relative order.
\<close>

theorem C2_remover_removes_every_occurrence:
  "removeSubjects subjects (BuildRBACSubjects users groups) =
     filter (\<lambda>s. \<not> targeted users groups s) subjects \<and>
   (\<forall>s. targeted users groups s \<longrightarrow>
      count_list (removeSubjects subjects (BuildRBACSubjects users groups)) s = 0) \<and>
   (\<forall>s. \<not> targeted users groups s \<longrightarrow>
      count_list (removeSubjects subjects (BuildRBACSubjects users groups)) s =
      count_list subjects s) \<and>
   (\<forall>s ns. targeted users groups (s\<lparr>Subject_Namespace := ns\<rparr>) = targeted users groups s) \<and>
   subseq (removeSubjects subjects (BuildRBACSubjects users groups)) subjects"
  by (simp add: removeSubjects_filter matchesAny_Build count_list_filter targeted_def)

theorem C2_remover_witness:
  "targeted [''alice''] [''devs''] alice \<and>
   \<not> targeted [''alice''] [''devs''] robot \<and>
   removeSubjects [alice, builder, alice\<lparr>Subject_Namespace := ''other''\<rparr>, bob, robot, alice, devs]
     (BuildRBACSubjects [''alice''] [''devs'']) = [builder, bob, robot] \<and>
   count_list (removeSubjects
       [alice, builder, alice\<lparr>Subject_Namespace := ''other''\<rparr>, bob, robot, alice, devs]
       (BuildRBACSubjects [''alice''] [''devs''])) alice = 0 \<and>
   count_list (removeSubjects
       [alice, builder, alice\<lparr>Subject_Namespace := ''other''\<rparr>, bob, robot, alice, devs]
       (BuildRBACSubjects [''alice''] [''devs''])) robot = 1"
  using C2_remover_removes_every_occurrence
    [of "[alice, builder, alice\<lparr>Subject_Namespace := ''other''\<rparr>, bob, robot, alice, devs]"
        "[''alice'']" "[''devs'']"]
  by (simp add: targeted_def alice_def bob_def devs_def builder_def robot_def
        UserKind_def GroupKind_def)

subsection \<open>The sort\<close>

lemma mset_insertReverse: "mset (insertReverse x ys) = add_mset x (mset ys)"
  by (induction ys) simp_all

lemma mset_sortReverse: "mset (sortReverse xs) = mset xs"
  by (induction xs) (simp_all add: mset_insertReverse)

lemma set_insertReverse: "set (insertReverse x ys) = insert x (set ys)"
  by (induction ys) auto

lemma set_sortReverse: "set (sortReverse xs) = set xs"
  by (induction xs) (simp_all add: set_insertReverse)

lemma descending_insertReverse:
  "sorted_wrt (\<lambda>a b. Name b \<le> Name a) ys \<Longrightarrow>
   sorted_wrt (\<lambda>a b. Name b \<le> Name a) (insertReverse x ys)"
  by (induction ys) (auto simp: set_insertReverse Reverse_Less_def Less_def)

lemma descending_sortReverse: "sorted_wrt (\<lambda>a b. Name b \<le> Name a) (sortReverse xs)"
  by (induction xs) (simp_all add: descending_insertReverse)

lemma distinct_names_sortReverse:
  "distinct (map Name (sortReverse xs)) = distinct (map Name xs)"
proof -
  have "mset (map Name (sortReverse xs)) = mset (map Name xs)"
    by (simp add: mset_sortReverse)
  then show ?thesis by (rule mset_eq_imp_distinct_iff)
qed

lemma sorted_wrt_strict:
  "sorted_wrt (\<lambda>a b. Name b \<le> Name a) xs \<Longrightarrow> distinct (map Name xs) \<Longrightarrow>
   sorted_wrt (\<lambda>a b. Name b < Name a) xs"
  by (induction xs) (auto simp: less_le image_iff)

lemma strictly_descending_sortReverse:
  "distinct (map Name xs) \<Longrightarrow> sorted_wrt (\<lambda>a b. Name b < Name a) (sortReverse xs)"
  by (simp add: sorted_wrt_strict descending_sortReverse distinct_names_sortReverse)

lemma names_descending:
  "sorted_wrt (\<lambda>a b. Name b < Name a) xs \<Longrightarrow> sorted_wrt (\<lambda>m n. n < m) (map Name xs)"
  by (simp add: sorted_wrt_map)

lemma names_sortReverse_unique:
  assumes "distinct (map Name xs)" and "set (map Name xs) = set ns" and "sorted_wrt (<) ns"
  shows "map Name (sortReverse xs) = rev ns"
proof -
  have d: "sorted_wrt (\<lambda>m n. n < m) (map Name (sortReverse xs))"
    using assms(1) by (simp add: strictly_descending_sortReverse names_descending)
  have "sorted_wrt (<) (rev (map Name (sortReverse xs)))"
    using d by (simp add: sorted_wrt_rev)
  moreover have "set (rev (map Name (sortReverse xs))) = set ns"
    using assms(2) by (simp add: set_sortReverse)
  ultimately have "rev (map Name (sortReverse xs)) = ns"
    using assms(3) by (metis strict_sorted_equal)
  then show ?thesis by (metis rev_rev_ident)
qed

lemma abc_sorted: "sorted_wrt (<) [''a'', ''b'', ''c'']"
  by (simp add: less_list_code)

subsection \<open>The run as a whole\<close>

lemma reportNotBound_eq:
  "reportNotBound opts st =
     st\<lparr>Trace := Trace st @ map Fprintf (notBoundLines opts (usersRemoved st) (groupsRemoved st))\<rparr>"
  by (simp add: reportNotBound_def notBoundLines_def Let_def)

lemma Run_list_error:
  "RoleBindings_List (Client opts) (BindingNamespace opts) = Inl err \<Longrightarrow>
   Run opts = (initState, Some err)"
  by (simp add: Run_def)

lemma Run_textual:
  "RoleBindings_List (Client opts) (BindingNamespace opts) = Inr items \<Longrightarrow> Output opts = [] \<Longrightarrow>
   Run opts =
     (case loop opts (sortReverse items) initState of
        (st, Some err) \<Rightarrow> (st, Some err)
      | (st, None) \<Rightarrow> (reportNotBound opts st, None))"
  by (simp add: Run_def split: prod.splits option.splits)

lemma Run_textual_ok:
  assumes "RoleBindings_List (Client opts) (BindingNamespace opts) = Inr items"
    and "Output opts = []" and "snd (Run opts) = None"
  obtains st0 where "loop opts (sortReverse items) initState = (st0, None)"
    and "Run opts = (reportNotBound opts st0, None)"
  using assms by (auto simp: Run_textual split: prod.splits option.splits)

lemma Run_accumulate:
  assumes "RoleBindings_List (Client opts) (BindingNamespace opts) = Inr items"
    and "0 < length (Output opts)"
  shows "Run opts =
    (initState\<lparr>Trace := [PrintObj \<lparr>List_Kind = ''List'', List_APIVersion = ''v1'',
        Items = map (filteredBinding opts)
          (filter (\<lambda>b. length (remainingSubjects opts b) \<noteq> length (Subjects b))
             (sortReverse items))\<rparr>],
       updatedBindings := map (filteredBinding opts)
          (filter (\<lambda>b. length (remainingSubjects opts b) \<noteq> length (Subjects b))
             (sortReverse items))\<rparr>,
     Printer opts \<lparr>List_Kind = ''List'', List_APIVersion = ''v1'',
        Items = map (filteredBinding opts)
          (filter (\<lambda>b. length (remainingSubjects opts b) \<noteq> length (Subjects b))
             (sortReverse items))\<rparr>)"
  using assms by (simp add: Run_def loop_accumulate initState_def Let_def)

lemma Run_mutation_failure:
  assumes "RoleBindings_List (Client opts) (BindingNamespace opts) = Inr items"
    and "Output opts = []" and "DryRunStrategy opts \<noteq> DryRunClient"
    and "sortReverse items = pre @ b # post"
    and "loop opts pre initState = (st1, None)"
    and "length (remainingSubjects opts b) \<noteq> length (Subjects b)"
    and "answer opts b (Trace st1) = Some err"
  shows "Run opts = (st1\<lparr>Trace := Trace st1 @ [mutation opts b]\<rparr>, Some err)"
  using assms by (simp add: Run_textual loop_append loopBody_cases)

lemma loop_sas_others:
  "sasRemoved (fst (loop opts bs st)) = sasRemoved st \<and>
   othersRemoved (fst (loop opts bs st)) = othersRemoved st"
  by (induction bs arbitrary: st)
     (simp_all add: loopBody_cases reported_fields split: option.splits prod.splits)

lemma Run_sas_others:
  "sasRemoved (fst (Run opts)) = {} \<and> othersRemoved (fst (Run opts)) = {}"
proof (cases "RoleBindings_List (Client opts) (BindingNamespace opts)")
  case (Inl err)
  then show ?thesis by (simp add: Run_def initState_def)
next
  case (Inr items)
  obtain st e where l: "loop opts (sortReverse items) initState = (st, e)"
    by (cases "loop opts (sortReverse items) initState")
  have "sasRemoved st = {} \<and> othersRemoved st = {}"
    using loop_sas_others[of opts "sortReverse items" initState] l by (simp add: initState_def)
  then show ?thesis using Inr l
    by (cases e) (simp_all add: Run_def reportNotBound_eq Let_def)
qed

lemma Run_calls:
  "RoleBindings_List (Client opts) (BindingNamespace opts) = Inr items \<Longrightarrow>
   calls (Trace (fst (Run opts))) = calls (Trace (fst (loop opts (sortReverse items) initState)))"
  by (simp add: Run_def reportNotBound_eq calls_append calls_map_Fprintf calls_def Let_def
        split: prod.splits option.splits)

subsection \<open>The action for one binding\<close>

text \<open>
  Claim C1, amended. For every binding that the loop processes, what is done follows from
  the count of the remaining subjects against the count of the original subjects and from
  the mode of the run. The remaining count is never greater. When the counts are equal the
  body leaves the state as it is, in every mode: no client call, no line, nothing added to
  the aggregate sets or to the collected bindings. When they differ: in a run that
  dispatches (no output format, not a client dry run), if no subject remains of a non-empty
  original the one client call of the body is \<^verbatim>\<open>Delete\<close> with the name of the binding, and
  if some but not all subjects remain it is \<^verbatim>\<open>Update\<close> with the binding carrying the
  remaining subjects; with an output format the body makes no client call and only adds the
  binding carrying the remaining subjects to the collected bindings; and in a client dry run
  without output format the body makes no client call and returns no error.
\<close>

theorem C1_action_by_subject_counts:
  "length (remainingSubjects opts b) \<le> length (Subjects b) \<and>
   (length (remainingSubjects opts b) = length (Subjects b) \<longrightarrow>
      loopBody opts b st = (st, None)) \<and>
   (Output opts = [] \<and> DryRunStrategy opts \<noteq> DryRunClient \<and>
    length (remainingSubjects opts b) = 0 \<and> 0 < length (Subjects b) \<longrightarrow>
      calls (Trace (fst (loopBody opts b st))) =
        calls (Trace st) @ [Delete (BindingNamespace opts) (Name b)]) \<and>
   (Output opts = [] \<and> DryRunStrategy opts \<noteq> DryRunClient \<and>
    0 < length (remainingSubjects opts b) \<and>
    length (remainingSubjects opts b) < length (Subjects b) \<longrightarrow>
      calls (Trace (fst (loopBody opts b st))) =
        calls (Trace st) @
        [Update (BindingNamespace opts) (b\<lparr>Subjects := remainingSubjects opts b\<rparr>)]) \<and>
   (0 < length (Output opts) \<and>
    length (remainingSubjects opts b) \<noteq> length (Subjects b) \<longrightarrow>
      loopBody opts b st =
        (st\<lparr>updatedBindings :=
             updatedBindings st @ [b\<lparr>Subjects := remainingSubjects opts b\<rparr>]\<rparr>, None)) \<and>
   (Output opts = [] \<and> DryRunStrategy opts = DryRunClient \<and>
    length (remainingSubjects opts b) \<noteq> length (Subjects b) \<longrightarrow>
      snd (loopBody opts b st) = None \<and>
      calls (Trace (fst (loopBody opts b st))) = calls (Trace st))"
proof -
  have le: "length (remainingSubjects opts b) \<le> length (Subjects b)"
    by (simp add: remainingSubjects_filter)
  have skip: "length (remainingSubjects opts b) = length (Subjects b) \<longrightarrow>
      loopBody opts b st = (st, None)"
    by (simp add: loopBody_cases)
  have call: "calls (Trace (fst (loopBody opts b st))) = calls (Trace st) @ [mutation opts b]"
    if "Output opts = []" "DryRunStrategy opts \<noteq> DryRunClient"
      "length (remainingSubjects opts b) \<noteq> length (Subjects b)"
    using that
    by (simp add: loopBody_cases calls_reported calls_mutation split: option.splits)
  have del: "Output opts = [] \<and> DryRunStrategy opts \<noteq> DryRunClient \<and>
    length (remainingSubjects opts b) = 0 \<and> 0 < length (Subjects b) \<longrightarrow>
      calls (Trace (fst (loopBody opts b st))) =
        calls (Trace st) @ [Delete (BindingNamespace opts) (Name b)]"
    using call by (auto simp: mutation_def)
  have upd: "Output opts = [] \<and> DryRunStrategy opts \<noteq> DryRunClient \<and>
    0 < length (remainingSubjects opts b) \<and>
    length (remainingSubjects opts b) < length (Subjects b) \<longrightarrow>
      calls (Trace (fst (loopBody opts b st))) =
        calls (Trace st) @
        [Update (BindingNamespace opts) (b\<lparr>Subjects := remainingSubjects opts b\<rparr>)]"
    using call by (auto simp: mutation_def filteredBinding_def)
  have acc: "0 < length (Output opts) \<and>
    length (remainingSubjects opts b) \<noteq> length (Subjects b) \<longrightarrow>
      loopBody opts b st =
        (st\<lparr>updatedBindings :=
             updatedBindings st @ [b\<lparr>Subjects := remainingSubjects opts b\<rparr>]\<rparr>, None)"
    by (simp add: loopBody_cases filteredBinding_def)
  have dry: "Output opts = [] \<and> DryRunStrategy opts = DryRunClient \<and>
    length (remainingSubjects opts b) \<noteq> length (Subjects b) \<longrightarrow>
      snd (loopBody opts b st) = None \<and>
      calls (Trace (fst (loopBody opts b st))) = calls (Trace st)"
    by (simp add: loopBody_cases calls_reported)
  show ?thesis
    by (intro conjI le skip del upd acc dry)
qed

theorem C1_action_witness:
  "Output liveOpts = [] \<and> DryRunStrategy liveOpts \<noteq> DryRunClient \<and>
   length (remainingSubjects liveOpts binding_c) = 0 \<and> 0 < length (Subjects binding_c) \<and>
   calls (Trace (fst (loopBody liveOpts binding_c initState))) = [Delete ''demo'' ''c''] \<and>
   0 < length (remainingSubjects liveOpts binding_a) \<and>
   length (remainingSubjects liveOpts binding_a) < length (Subjects binding_a) \<and>
   calls (Trace (fst (loopBody liveOpts binding_a initState))) =
     [Update ''demo'' (binding_a\<lparr>Subjects := [bob]\<rparr>)] \<and>
   length (remainingSubjects liveOpts binding_d) = length (Subjects binding_d) \<and>
   loopBody liveOpts binding_d initState = (initState, None) \<and>
   0 < length (Output yamlOpts) \<and>
   length (remainingSubjects yamlOpts binding_a) \<noteq> length (Subjects binding_a) \<and>
   loopBody yamlOpts binding_a initState =
     (initState\<lparr>updatedBindings := [binding_a\<lparr>Subjects := [bob]\<rparr>]\<rparr>, None) \<and>
   Output dryOpts = [] \<and> DryRunStrategy dryOpts = DryRunClient \<and>
   length (remainingSubjects dryOpts binding_c) \<noteq> length (Subjects binding_c) \<and>
   snd (loopBody dryOpts binding_c initState) = None \<and>
   calls (Trace (fst (loopBody dryOpts binding_c initState))) = []"
proof -
  have out: "Output liveOpts = []" by (simp add: liveOpts_def)
  have live: "DryRunStrategy liveOpts \<noteq> DryRunClient" by (simp add: liveOpts_def)
  have ns: "BindingNamespace liveOpts = ''demo''" by (simp add: liveOpts_def)
  have c0: "length (remainingSubjects liveOpts binding_c) = 0" by code_simp
  have c1: "0 < length (Subjects binding_c)" by code_simp
  have cn: "Name binding_c = ''c''" by (simp add: binding_c_def)
  have a0: "0 < length (remainingSubjects liveOpts binding_a)" by code_simp
  have a1: "length (remainingSubjects liveOpts binding_a) < length (Subjects binding_a)"
    by code_simp
  have ar: "remainingSubjects liveOpts binding_a = [bob]" by code_simp
  have d: "length (remainingSubjects liveOpts binding_d) = length (Subjects binding_d)"
    by code_simp
  have tr: "calls (Trace initState) = []" by (simp add: initState_def calls_def)
  have ub: "updatedBindings initState = []" by (simp add: initState_def)
  have yo: "0 < length (Output yamlOpts)" by (simp add: yamlOpts_def)
  have ya: "length (remainingSubjects yamlOpts binding_a) \<noteq> length (Subjects binding_a)"
    by code_simp
  have yr: "remainingSubjects yamlOpts binding_a = [bob]" by code_simp
  have dout: "Output dryOpts = []" by (simp add: dryOpts_def liveOpts_def)
  have ddry: "DryRunStrategy dryOpts = DryRunClient" by (simp add: dryOpts_def)
  have dc: "length (remainingSubjects dryOpts binding_c) \<noteq> length (Subjects binding_c)"
    by code_simp
  note tc = C1_action_by_subject_counts[of liveOpts binding_c initState]
  note ta = C1_action_by_subject_counts[of liveOpts binding_a initState]
  note td = C1_action_by_subject_counts[of liveOpts binding_d initState]
  note ty = C1_action_by_subject_counts[of yamlOpts binding_a initState]
  note tdry = C1_action_by_subject_counts[of dryOpts binding_c initState]
  have r1: "calls (Trace (fst (loopBody liveOpts binding_c initState))) = [Delete ''demo'' ''c'']"
    using tc[THEN conjunct2, THEN conjunct2, THEN conjunct1, THEN mp,
        OF conjI[OF out conjI[OF live conjI[OF c0 c1]]]]
    unfolding tr ns cn by simp
  have r2: "calls (Trace (fst (loopBody liveOpts binding_a initState))) =
     [Update ''demo'' (binding_a\<lparr>Subjects := [bob]\<rparr>)]"
    using ta[THEN conjunct2, THEN conjunct2, THEN conjunct2, THEN conjunct1, THEN mp,
        OF conjI[OF out conjI[OF live conjI[OF a0 a1]]]]
    unfolding tr ns ar by simp
  have r3: "loopBody liveOpts binding_d initState = (initState, None)"
    using td[THEN conjunct2, THEN conjunct1, THEN mp, OF d] .
  have r4: "loopBody yamlOpts binding_a initState =
     (initState\<lparr>updatedBindings := [binding_a\<lparr>Subjects := [bob]\<rparr>]\<rparr>, None)"
    using ty[THEN conjunct2, THEN conjunct2, THEN conjunct2, THEN conjunct2, THEN conjunct1,
        THEN mp, OF conjI[OF yo ya]]
    unfolding yr ub by simp
  note r5 = tdry[THEN conjunct2, THEN conjunct2, THEN conjunct2, THEN conjunct2,
        THEN conjunct2, THEN mp, OF conjI[OF dout conjI[OF ddry dc]]]
  have r6: "calls (Trace (fst (loopBody dryOpts binding_c initState))) = []"
    using r5[THEN conjunct2] unfolding tr .
  show ?thesis
    by (intro conjI out live c0 c1 r1 a0 a1 r2 d r3 yo ya r4 dout ddry dc r5[THEN conjunct1] r6)
qed

text \<open>
  Stated for every run, the part on the client calls fails. In the client dry run below no
  subject remains of the two subjects of the binding \<open>c\<close>, and the body calls no delete; with
  the output format below one of the two subjects of the binding \<open>a\<close> remains, and the body
  calls no update but collects the binding.
\<close>

theorem C1_action_counterexample:
  "Output dryOpts = [] \<and> DryRunStrategy dryOpts = DryRunClient \<and>
   length (remainingSubjects dryOpts binding_c) = 0 \<and> length (Subjects binding_c) = 2 \<and>
   snd (loopBody dryOpts binding_c initState) = None \<and>
   calls (Trace (fst (loopBody dryOpts binding_c initState))) = [] \<and>
   Output yamlOpts = ''yaml'' \<and>
   length (remainingSubjects yamlOpts binding_a) = 1 \<and> length (Subjects binding_a) = 2 \<and>
   snd (loopBody yamlOpts binding_a initState) = None \<and>
   calls (Trace (fst (loopBody yamlOpts binding_a initState))) = [] \<and>
   updatedBindings (fst (loopBody yamlOpts binding_a initState)) =
     [binding_a\<lparr>Subjects := [bob]\<rparr>]"
  by code_simp

subsection \<open>Failures\<close>

text \<open>
  Claim C7. When the listing fails, \<^verbatim>\<open>Run\<close> returns that error from the initial state: the
  trace is empty, so no mutation was attempted. When, in a run that dispatches, the sorted
  items are \<open>pre\<close>, then \<open>b\<close>, then \<open>post\<close>, the loop over \<open>pre\<close> ends without error in
  \<open>st1\<close>, and the client answers the update or delete of \<open>b\<close> with an error, then \<^verbatim>\<open>Run\<close>
  returns that error at once: its state is \<open>st1\<close> with the failed call added to the trace.
  Nothing of \<open>post\<close> is processed, and the calls made for \<open>pre\<close> stay in the trace as
  they were: nothing undoes them.
\<close>

theorem C7_failures_abort:
  "(\<forall>err. RoleBindings_List (Client opts) (BindingNamespace opts) = Inl err \<longrightarrow>
      Run opts = (initState, Some err)) \<and>
   (\<forall>items pre b post st1 err.
      RoleBindings_List (Client opts) (BindingNamespace opts) = Inr items \<and>
      Output opts = [] \<and> DryRunStrategy opts \<noteq> DryRunClient \<and>
      sortReverse items = pre @ b # post \<and>
      loop opts pre initState = (st1, None) \<and>
      length (remainingSubjects opts b) \<noteq> length (Subjects b) \<and>
      answer opts b (Trace st1) = Some err \<longrightarrow>
        Run opts = (st1\<lparr>Trace := Trace st1 @ [mutation opts b]\<rparr>, Some err) \<and>
        calls (Trace (fst (Run opts))) =
          map (mutation opts)
            (filter (\<lambda>b. length (remainingSubjects opts b) \<noteq> length (Subjects b)) pre) @
          [mutation opts b])"
proof (intro conjI allI impI)
  fix err
  assume "RoleBindings_List (Client opts) (BindingNamespace opts) = Inl err"
  then show "Run opts = (initState, Some err)" by (rule Run_list_error)
next
  fix items pre b post st1 err
  assume h: "RoleBindings_List (Client opts) (BindingNamespace opts) = Inr items \<and>
      Output opts = [] \<and> DryRunStrategy opts \<noteq> DryRunClient \<and>
      sortReverse items = pre @ b # post \<and>
      loop opts pre initState = (st1, None) \<and>
      length (remainingSubjects opts b) \<noteq> length (Subjects b) \<and>
      answer opts b (Trace st1) = Some err"
  then have run: "Run opts = (st1\<lparr>Trace := Trace st1 @ [mutation opts b]\<rparr>, Some err)"
    by (intro Run_mutation_failure[of opts items pre b post st1 err]) simp_all
  have pre: "calls (Trace st1) =
      map (mutation opts)
        (filter (\<lambda>b. length (remainingSubjects opts b) \<noteq> length (Subjects b)) pre)"
    using loop_textual_ok[of opts pre initState st1] h
    by (simp add: initState_def calls_def)
  show "Run opts = (st1\<lparr>Trace := Trace st1 @ [mutation opts b]\<rparr>, Some err)"
    by (rule run)
  show "calls (Trace (fst (Run opts))) =
          map (mutation opts)
            (filter (\<lambda>b. length (remainingSubjects opts b) \<noteq> length (Subjects b)) pre) @
          [mutation opts b]"
    by (simp add: run calls_mutation pre)
qed

theorem C7_failures_witness:
  "RoleBindings_List (Client downOpts) (BindingNamespace downOpts) = Inl (Error ''unavailable'') \<and>
   Run downOpts = (initState, Some (Error ''unavailable'')) \<and>
   RoleBindings_List (Client failOpts) (BindingNamespace failOpts) =
     Inr [binding_a, binding_c, binding_b] \<and>
   sortReverse [binding_a, binding_c, binding_b] = [binding_c] @ binding_b # [binding_a] \<and>
   snd (loop failOpts [binding_c] initState) = None \<and>
   answer failOpts binding_b (Trace (fst (loop failOpts [binding_c] initState))) =
     Some (Error ''conflict'') \<and>
   snd (Run failOpts) = Some (Error ''conflict'') \<and>
   calls (Trace (fst (Run failOpts))) =
     [Delete ''demo'' ''c'', Update ''demo'' (binding_b\<lparr>Subjects := [builder]\<rparr>)]"
proof -
  have down: "RoleBindings_List (Client downOpts) (BindingNamespace downOpts) =
      Inl (Error ''unavailable'')"
    by (simp add: downOpts_def downClient_def)
  have lst: "RoleBindings_List (Client failOpts) (BindingNamespace failOpts) =
      Inr [binding_a, binding_c, binding_b]"
    by (simp add: failOpts_def failClient_def)
  have out: "Output failOpts = []"
    by (simp add: failOpts_def liveOpts_def)
  have live: "DryRunStrategy failOpts \<noteq> DryRunClient"
    by (simp add: failOpts_def liveOpts_def)
  have srt: "sortReverse [binding_a, binding_c, binding_b] = [binding_c] @ binding_b # [binding_a]"
    by code_simp
  have pre: "snd (loop failOpts [binding_c] initState) = None"
    by code_simp
  then have pre': "loop failOpts [binding_c] initState =
      (fst (loop failOpts [binding_c] initState), None)"
    by (metis prod.collapse)
  have chg: "length (remainingSubjects failOpts binding_b) \<noteq> length (Subjects binding_b)"
    by code_simp
  have ans: "answer failOpts binding_b (Trace (fst (loop failOpts [binding_c] initState))) =
      Some (Error ''conflict'')"
    by code_simp
  have ms: "map (mutation failOpts)
          (filter (\<lambda>b. length (remainingSubjects failOpts b) \<noteq> length (Subjects b))
             [binding_c]) @ [mutation failOpts binding_b] =
      [Delete ''demo'' ''c'', Update ''demo'' (binding_b\<lparr>Subjects := [builder]\<rparr>)]"
    by code_simp
  have r1: "Run downOpts = (initState, Some (Error ''unavailable''))"
    using C7_failures_abort[of downOpts] down by blast
  have r2: "Run failOpts =
       ((fst (loop failOpts [binding_c] initState))
          \<lparr>Trace := Trace (fst (loop failOpts [binding_c] initState)) @
             [mutation failOpts binding_b]\<rparr>,
        Some (Error ''conflict'')) \<and>
     calls (Trace (fst (Run failOpts))) =
       map (mutation failOpts)
          (filter (\<lambda>b. length (remainingSubjects failOpts b) \<noteq> length (Subjects b))
             [binding_c]) @ [mutation failOpts binding_b]"
    by (rule C7_failures_abort[of failOpts, THEN conjunct2, rule_format,
          of "[binding_a, binding_c, binding_b]" "[binding_c]" binding_b "[binding_a]"])
       (intro conjI lst out live srt pre' chg ans)
  have r3: "snd (Run failOpts) = Some (Error ''conflict'')"
    using r2 by simp
  have r4: "calls (Trace (fst (Run failOpts))) =
      [Delete ''demo'' ''c'', Update ''demo'' (binding_b\<lparr>Subjects := [builder]\<rparr>)]"
    by (rule trans[OF r2[THEN conjunct2] ms])
  show ?thesis
    by (intro conjI down r1 lst srt pre ans r3 r4)
qed

subsection \<open>Collecting instead of dispatching\<close>

text \<open>
  Claim C6. When an output format is set and the listing succeeds, the run calls the
  client neither for an update nor for a delete and writes no line. Its whole trace is
  the one call of the printer, with an object of kind \<^verbatim>\<open>List\<close> whose items are, in the
  order of processing, the bindings whose subject list changed, each carrying its remaining
  subjects (an empty list for a binding that would be deleted). The result of the run is
  the answer of the printer.
\<close>

theorem C6_accumulate_only:
  assumes "RoleBindings_List (Client opts) (BindingNamespace opts) = Inr items"
    and "0 < length (Output opts)"
  shows "calls (Trace (fst (Run opts))) = [] \<and>
     written (Trace (fst (Run opts))) = [] \<and>
     Trace (fst (Run opts)) =
       [PrintObj \<lparr>List_Kind = ''List'', List_APIVersion = ''v1'',
          Items = map (\<lambda>b. b\<lparr>Subjects := remainingSubjects opts b\<rparr>)
                    (filter (\<lambda>b. remainingSubjects opts b \<noteq> Subjects b) (sortReverse items))\<rparr>] \<and>
     snd (Run opts) =
       Printer opts \<lparr>List_Kind = ''List'', List_APIVersion = ''v1'',
          Items = map (\<lambda>b. b\<lparr>Subjects := remainingSubjects opts b\<rparr>)
                    (filter (\<lambda>b. remainingSubjects opts b \<noteq> Subjects b) (sortReverse items))\<rparr>"
proof -
  have f: "filter (\<lambda>b. length (remainingSubjects opts b) \<noteq> length (Subjects b)) xs =
      filter (\<lambda>b. remainingSubjects opts b \<noteq> Subjects b) xs" for xs
    by (simp add: unchanged_iff_eq)
  have m: "map (filteredBinding opts) xs = map (\<lambda>b. b\<lparr>Subjects := remainingSubjects opts b\<rparr>) xs"
    for xs
    by (simp add: filteredBinding_def)
  show ?thesis
    unfolding Run_accumulate[OF assms] f m
    by (simp add: initState_def calls_def)
qed

theorem C6_accumulate_witness:
  "RoleBindings_List (Client yamlOpts) (BindingNamespace yamlOpts) =
     Inr [binding_a, binding_c, binding_b] \<and>
   0 < length (Output yamlOpts) \<and>
   Trace (fst (Run yamlOpts)) =
     [PrintObj \<lparr>List_Kind = ''List'', List_APIVersion = ''v1'',
        Items = [binding_c\<lparr>Subjects := []\<rparr>, binding_b\<lparr>Subjects := [builder]\<rparr>,
                 binding_a\<lparr>Subjects := [bob]\<rparr>]\<rparr>] \<and>
   calls (Trace (fst (Run yamlOpts))) = []"
proof -
  have lst: "RoleBindings_List (Client yamlOpts) (BindingNamespace yamlOpts) =
      Inr [binding_a, binding_c, binding_b]"
    by (simp add: yamlOpts_def liveOpts_def okClient_def)
  have out: "0 < length (Output yamlOpts)"
    by (simp add: yamlOpts_def)
  have items: "map (\<lambda>b. b\<lparr>Subjects := remainingSubjects yamlOpts b\<rparr>)
        (filter (\<lambda>b. remainingSubjects yamlOpts b \<noteq> Subjects b)
           (sortReverse [binding_a, binding_c, binding_b])) =
      [binding_c\<lparr>Subjects := []\<rparr>, binding_b\<lparr>Subjects := [builder]\<rparr>,
       binding_a\<lparr>Subjects := [bob]\<rparr>]"
    by code_simp
  note r = C6_accumulate_only[OF lst out]
  have tr: "Trace (fst (Run yamlOpts)) =
     [PrintObj \<lparr>List_Kind = ''List'', List_APIVersion = ''v1'',
        Items = [binding_c\<lparr>Subjects := []\<rparr>, binding_b\<lparr>Subjects := [builder]\<rparr>,
                 binding_a\<lparr>Subjects := [bob]\<rparr>]\<rparr>]"
    using r[THEN conjunct2, THEN conjunct2, THEN conjunct1] unfolding items .
  show ?thesis
    by (intro conjI lst out tr r[THEN conjunct1])
qed

subsection \<open>Kinds that are never removed\<close>

text \<open>
  Claim C8. The remover leaves the subjects that are neither users nor groups exactly as
  they were (the same subjects, as often, in the same order), so a subject that is gone
  is a user or a group; and at the end of every run, whatever the mode and the outcome,
  the aggregate sets of removed service accounts and of removed other subjects are empty.
\<close>

theorem C8_only_users_and_groups_removed:
  "filter (\<lambda>s. Subject_Kind s \<noteq> UserKind \<and> Subject_Kind s \<noteq> GroupKind)
      (removeSubjects subjects (BuildRBACSubjects users groups)) =
   filter (\<lambda>s. Subject_Kind s \<noteq> UserKind \<and> Subject_Kind s \<noteq> GroupKind) subjects \<and>
   (\<forall>s \<in> set subjects. s \<notin> set (removeSubjects subjects (BuildRBACSubjects users groups)) \<longrightarrow>
      Subject_Kind s = UserKind \<or> Subject_Kind s = GroupKind) \<and>
   sasRemoved (fst (Run opts)) = {} \<and> othersRemoved (fst (Run opts)) = {}"
proof -
  have "filter (\<lambda>s. Subject_Kind s \<noteq> UserKind \<and> Subject_Kind s \<noteq> GroupKind)
      (filter (\<lambda>s. \<not> targeted users groups s) subjects) =
     filter (\<lambda>s. Subject_Kind s \<noteq> UserKind \<and> Subject_Kind s \<noteq> GroupKind) subjects"
    unfolding filter_filter by (rule filter_cong) (auto simp: targeted_def)
  moreover have "\<forall>s \<in> set subjects. s \<notin> set (filter (\<lambda>s. \<not> targeted users groups s) subjects) \<longrightarrow>
      Subject_Kind s = UserKind \<or> Subject_Kind s = GroupKind"
    by (auto simp: targeted_def)
  ultimately show ?thesis
    by (simp add: removeSubjects_filter matchesAny_Build Run_sas_others)
qed

theorem C8_only_users_and_groups_witness:
  "removeSubjects [alice, builder, robot, devs] (BuildRBACSubjects [''alice'', ''builder''] [''devs'']) =
     [builder, robot] \<and>
   alice \<in> set [alice, builder, robot, devs] \<and>
   alice \<notin> set (removeSubjects [alice, builder, robot, devs]
      (BuildRBACSubjects [''alice'', ''builder''] [''devs''])) \<and>
   Subject_Kind alice = UserKind \<and>
   sasRemoved (fst (Run liveOpts)) = {} \<and> othersRemoved (fst (Run liveOpts)) = {}"
proof -
  have r: "removeSubjects [alice, builder, robot, devs]
      (BuildRBACSubjects [''alice'', ''builder''] [''devs'']) = [builder, robot]"
    by code_simp
  have k: "Subject_Kind alice = UserKind"
    by (simp add: alice_def UserKind_def)
  have m: "alice \<in> set [alice, builder, robot, devs]" by simp
  have n: "alice \<notin> set (removeSubjects [alice, builder, robot, devs]
      (BuildRBACSubjects [''alice'', ''builder''] [''devs'']))"
    unfolding r by (simp add: alice_def builder_def robot_def)
  note t = C8_only_users_and_groups_removed
     [of "[alice, builder, robot, devs]" "[''alice'', ''builder'']" "[''devs'']" liveOpts]
  show ?thesis
    by (intro conjI r m n k t[THEN conjunct2, THEN conjunct2, THEN conjunct1]
          t[THEN conjunct2, THEN conjunct2, THEN conjunct2])
qed

subsection \<open>The client call comes before the lines\<close>

text \<open>
  Claim C10. In a run that dispatches (no output format, not a client dry run), for a
  binding that loses a subject: when the client answers the update or delete with an
  error, the body returns that error with nothing but the call added to the trace, so no
  line of this binding is written, although its lines are not empty; when the client
  answers without error, the trace grows by the call followed by the lines of the binding,
  in this order. For the run as a whole: when the call for \<open>b\<close> fails, all that was written
  is the lines of the bindings processed before \<open>b\<close>.
\<close>

theorem C10_mutation_before_report:
  assumes "Output opts = []" and "DryRunStrategy opts \<noteq> DryRunClient"
    and "length (remainingSubjects opts b) \<noteq> length (Subjects b)"
  shows "(\<forall>err. answer opts b (Trace st) = Some err \<longrightarrow>
            loopBody opts b st = (st\<lparr>Trace := Trace st @ [mutation opts b]\<rparr>, Some err)) \<and>
         (answer opts b (Trace st) = None \<longrightarrow>
            snd (loopBody opts b st) = None \<and>
            Trace (fst (loopBody opts b st)) =
              Trace st @ mutation opts b # map Fprintf (bindingLines opts b)) \<and>
         isCall (mutation opts b) \<and> bindingLines opts b \<noteq> [] \<and>
         (\<forall>items pre post st1 err.
            RoleBindings_List (Client opts) (BindingNamespace opts) = Inr items \<and>
            sortReverse items = pre @ b # post \<and>
            loop opts pre initState = (st1, None) \<and>
            answer opts b (Trace st1) = Some err \<longrightarrow>
              snd (Run opts) = Some err \<and>
              written (Trace (fst (Run opts))) = concat (map (bindingLines opts) pre))"
proof (intro conjI allI impI)
  fix err
  assume "answer opts b (Trace st) = Some err"
  then show "loopBody opts b st = (st\<lparr>Trace := Trace st @ [mutation opts b]\<rparr>, Some err)"
    using assms by (simp add: loopBody_cases)
next
  assume a: "answer opts b (Trace st) = None"
  show "snd (loopBody opts b st) = None"
    using assms a by (simp add: loopBody_cases)
  show "Trace (fst (loopBody opts b st)) =
      Trace st @ mutation opts b # map Fprintf (bindingLines opts b)"
    using assms a by (simp add: loopBody_cases reported_def)
next
  show "isCall (mutation opts b)" by (rule isCall_mutation)
  show "bindingLines opts b \<noteq> []" using assms(3) by (rule changed_bindingLines)
next
  fix items pre post st1 err
  assume h: "RoleBindings_List (Client opts) (BindingNamespace opts) = Inr items \<and>
            sortReverse items = pre @ b # post \<and>
            loop opts pre initState = (st1, None) \<and>
            answer opts b (Trace st1) = Some err"
  then have run: "Run opts = (st1\<lparr>Trace := Trace st1 @ [mutation opts b]\<rparr>, Some err)"
    using assms by (intro Run_mutation_failure[of opts items pre b post st1 err]) simp_all
  have pre: "written (Trace st1) = concat (map (bindingLines opts) pre)"
    using loop_textual_ok[of opts pre initState st1] h assms(1) by (simp add: initState_def)
  show "snd (Run opts) = Some err" by (simp add: run)
  show "written (Trace (fst (Run opts))) = concat (map (bindingLines opts) pre)"
    by (simp add: run written_mutation pre)
qed

theorem C10_mutation_before_report_witness:
  "Output failOpts = [] \<and> DryRunStrategy failOpts \<noteq> DryRunClient \<and>
   length (remainingSubjects failOpts binding_a) \<noteq> length (Subjects binding_a) \<and>
   answer failOpts binding_a (Trace initState) = Some (Error ''conflict'') \<and>
   loopBody failOpts binding_a initState =
     (initState\<lparr>Trace := [Update ''demo'' (binding_a\<lparr>Subjects := [bob]\<rparr>)]\<rparr>,
      Some (Error ''conflict'')) \<and>
   bindingLines failOpts binding_a =
     [''Removing admin from users [alice] in project demo.'' @ [CHR 0x0A]] \<and>
   Output liveOpts = [] \<and> DryRunStrategy liveOpts \<noteq> DryRunClient \<and>
   length (remainingSubjects liveOpts binding_a) \<noteq> length (Subjects binding_a) \<and>
   answer liveOpts binding_a (Trace initState) = None \<and>
   Trace (fst (loopBody liveOpts binding_a initState)) =
     [Update ''demo'' (binding_a\<lparr>Subjects := [bob]\<rparr>),
      Fprintf (''Removing admin from users [alice] in project demo.'' @ [CHR 0x0A])]"
proof -
  have out: "Output failOpts = []" by (simp add: failOpts_def liveOpts_def)
  have live: "DryRunStrategy failOpts \<noteq> DryRunClient" by (simp add: failOpts_def liveOpts_def)
  have chg: "length (remainingSubjects failOpts binding_a) \<noteq> length (Subjects binding_a)"
    by code_simp
  have ans: "answer failOpts binding_a (Trace initState) = Some (Error ''conflict'')"
    by code_simp
  have mut: "mutation failOpts binding_a = Update ''demo'' (binding_a\<lparr>Subjects := [bob]\<rparr>)"
    by code_simp
  have lines: "bindingLines failOpts binding_a =
     [''Removing admin from users [alice] in project demo.'' @ [CHR 0x0A]]"
    by code_simp
  have out': "Output liveOpts = []" by (simp add: liveOpts_def)
  have live': "DryRunStrategy liveOpts \<noteq> DryRunClient" by (simp add: liveOpts_def)
  have chg': "length (remainingSubjects liveOpts binding_a) \<noteq> length (Subjects binding_a)"
    by code_simp
  have ans': "answer liveOpts binding_a (Trace initState) = None"
    by code_simp
  have mut': "mutation liveOpts binding_a = Update ''demo'' (binding_a\<lparr>Subjects := [bob]\<rparr>)"
    by code_simp
  have lines': "bindingLines liveOpts binding_a =
     [''Removing admin from users [alice] in project demo.'' @ [CHR 0x0A]]"
    by code_simp
  have tr: "Trace initState = []" by (simp add: initState_def)
  note f = C10_mutation_before_report[OF out live chg, of initState]
  note g = C10_mutation_before_report[OF out' live' chg', of initState]
  have r1: "loopBody failOpts binding_a initState =
     (initState\<lparr>Trace := [Update ''demo'' (binding_a\<lparr>Subjects := [bob]\<rparr>)]\<rparr>,
      Some (Error ''conflict''))"
    using f[THEN conjunct1, rule_format, OF ans] unfolding mut tr by simp
  have r2: "Trace (fst (loopBody liveOpts binding_a initState)) =
     [Update ''demo'' (binding_a\<lparr>Subjects := [bob]\<rparr>),
      Fprintf (''Removing admin from users [alice] in project demo.'' @ [CHR 0x0A])]"
    using g[THEN conjunct2, THEN conjunct1, rule_format, OF ans', THEN conjunct2]
    unfolding mut' tr lines' by simp
  show ?thesis
    by (intro conjI out live chg ans r1 lines out' live' chg' ans' r2)
qed

subsection \<open>The lines of one binding\<close>

text \<open>
  Claim C9, amended. A binding none of whose subjects is targeted by the request leaves the
  state as it is: no line and no client call. When no output format is set and the body
  does not return an error (the client did not refuse the update or delete), the body
  writes, for each category whose difference is not empty, in the order users, groups,
  serviceaccounts, subjects, exactly one line
  \<^verbatim>\<open>Removing <roleDisplayName> from <category> <names> in project <namespace><dryRunText>.\<close>
  followed by a line feed, where the names are the sorted difference between brackets, the
  namespace is that of the options, the dry run text is \<^verbatim>\<open> (dry client run)\<close> in a client
  dry run and empty otherwise, and the display name of the role is its name for a
  \<^verbatim>\<open>ClusterRole\<close> and the namespace of the binding, a slash and its name otherwise. A binding
  that loses a subject has a non-empty difference of users or of groups.
\<close>

theorem C9_report_lines:
  "((\<forall>s \<in> set (Subjects b). \<not> targeted (Users opts) (Groups opts) s) \<longrightarrow>
      loopBody opts b st = (st, None)) \<and>
   (Output opts = [] \<and> snd (loopBody opts b st) = None \<longrightarrow>
      written (Trace (fst (loopBody opts b st))) = written (Trace st) @
        (if usersDiff opts b \<noteq> {}
         then [''Removing '' @ roleDisplayName b @ '' from users '' @
               formatV (setList (usersDiff opts b)) @ '' in project '' @
               BindingNamespace opts @ dryRunText opts @ ''.'' @ [CHR 0x0A]] else []) @
        (if groupsDiff opts b \<noteq> {}
         then [''Removing '' @ roleDisplayName b @ '' from groups '' @
               formatV (setList (groupsDiff opts b)) @ '' in project '' @
               BindingNamespace opts @ dryRunText opts @ ''.'' @ [CHR 0x0A]] else []) @
        (if sasDiff opts b \<noteq> {}
         then [''Removing '' @ roleDisplayName b @ '' from serviceaccounts '' @
               formatV (setList (sasDiff opts b)) @ '' in project '' @
               BindingNamespace opts @ dryRunText opts @ ''.'' @ [CHR 0x0A]] else []) @
        (if othersDiff opts b \<noteq> {}
         then [''Removing '' @ roleDisplayName b @ '' from subjects '' @
               formatV (setList (othersDiff opts b)) @ '' in project '' @
               BindingNamespace opts @ dryRunText opts @ ''.'' @ [CHR 0x0A]] else [])) \<and>
   (length (remainingSubjects opts b) \<noteq> length (Subjects b) \<longrightarrow>
      usersDiff opts b \<noteq> {} \<or> groupsDiff opts b \<noteq> {}) \<and>
   roleDisplayName b =
     (if RoleRef_Kind (RoleRef b) = ''ClusterRole'' then RoleRef_Name (RoleRef b)
      else Namespace b @ ''/'' @ RoleRef_Name (RoleRef b)) \<and>
   dryRunText opts = (if DryRunStrategy opts = DryRunClient then '' (dry client run)'' else [])"
proof (intro conjI impI)
  assume "\<forall>s \<in> set (Subjects b). \<not> targeted (Users opts) (Groups opts) s"
  then have "length (remainingSubjects opts b) = length (Subjects b)"
    by (simp only: unchanged_iff)
  then show "loopBody opts b st = (st, None)" by (simp add: loopBody_cases)
next
  assume h: "Output opts = [] \<and> snd (loopBody opts b st) = None"
  have lines: "bindingLines opts b =
        (if usersDiff opts b \<noteq> {}
         then [''Removing '' @ roleDisplayName b @ '' from users '' @
               formatV (setList (usersDiff opts b)) @ '' in project '' @
               BindingNamespace opts @ dryRunText opts @ ''.'' @ [CHR 0x0A]] else []) @
        (if groupsDiff opts b \<noteq> {}
         then [''Removing '' @ roleDisplayName b @ '' from groups '' @
               formatV (setList (groupsDiff opts b)) @ '' in project '' @
               BindingNamespace opts @ dryRunText opts @ ''.'' @ [CHR 0x0A]] else []) @
        (if sasDiff opts b \<noteq> {}
         then [''Removing '' @ roleDisplayName b @ '' from serviceaccounts '' @
               formatV (setList (sasDiff opts b)) @ '' in project '' @
               BindingNamespace opts @ dryRunText opts @ ''.'' @ [CHR 0x0A]] else []) @
        (if othersDiff opts b \<noteq> {}
         then [''Removing '' @ roleDisplayName b @ '' from subjects '' @
               formatV (setList (othersDiff opts b)) @ '' in project '' @
               BindingNamespace opts @ dryRunText opts @ ''.'' @ [CHR 0x0A]] else [])"
    unfolding bindingLines_def removingLine_def by simp
  have "written (Trace (fst (loopBody opts b st))) = written (Trace st) @ bindingLines opts b"
    using h
    by (auto simp: loopBody_cases unchanged_bindingLines written_reported written_mutation
          split: if_splits option.splits)
  then show "written (Trace (fst (loopBody opts b st))) = written (Trace st) @
        (if usersDiff opts b \<noteq> {}
         then [''Removing '' @ roleDisplayName b @ '' from users '' @
               formatV (setList (usersDiff opts b)) @ '' in project '' @
               BindingNamespace opts @ dryRunText opts @ ''.'' @ [CHR 0x0A]] else []) @
        (if groupsDiff opts b \<noteq> {}
         then [''Removing '' @ roleDisplayName b @ '' from groups '' @
               formatV (setList (groupsDiff opts b)) @ '' in project '' @
               BindingNamespace opts @ dryRunText opts @ ''.'' @ [CHR 0x0A]] else []) @
        (if sasDiff opts b \<noteq> {}
         then [''Removing '' @ roleDisplayName b @ '' from serviceaccounts '' @
               formatV (setList (sasDiff opts b)) @ '' in project '' @
               BindingNamespace opts @ dryRunText opts @ ''.'' @ [CHR 0x0A]] else []) @
        (if othersDiff opts b \<noteq> {}
         then [''Removing '' @ roleDisplayName b @ '' from subjects '' @
               formatV (setList (othersDiff opts b)) @ '' in project '' @
               BindingNamespace opts @ dryRunText opts @ ''.'' @ [CHR 0x0A]] else [])"
    unfolding lines .
next
  assume "length (remainingSubjects opts b) \<noteq> length (Subjects b)"
  then show "usersDiff opts b \<noteq> {} \<or> groupsDiff opts b \<noteq> {}" by (rule changed_diff)
next
  show "roleDisplayName b =
     (if RoleRef_Kind (RoleRef b) = ''ClusterRole'' then RoleRef_Name (RoleRef b)
      else Namespace b @ ''/'' @ RoleRef_Name (RoleRef b))"
    by (simp add: roleDisplayName_def)
  show "dryRunText opts = (if DryRunStrategy opts = DryRunClient then '' (dry client run)'' else [])"
    by (simp add: dryRunText_def)
qed

theorem C9_report_lines_witness:
  "Output dryOpts = [] \<and> snd (loopBody dryOpts binding_b initState) = None \<and>
   written (Trace (fst (loopBody dryOpts binding_b initState))) =
     [''Removing demo/view from users [alice] in project demo (dry client run).'' @ [CHR 0x0A],
      ''Removing demo/view from groups [devs] in project demo (dry client run).'' @ [CHR 0x0A]] \<and>
   Subjects binding_d = [bob, builder] \<and>
   \<not> targeted (Users dryOpts) (Groups dryOpts) bob \<and>
   \<not> targeted (Users dryOpts) (Groups dryOpts) builder \<and>
   loopBody dryOpts binding_d initState = (initState, None)"
proof -
  have out: "Output dryOpts = []" by (simp add: dryOpts_def liveOpts_def)
  have ok: "snd (loopBody dryOpts binding_b initState) = None" by code_simp
  have parts: "usersDiff dryOpts binding_b = {''alice''}" "groupsDiff dryOpts binding_b = {''devs''}"
    "sasDiff dryOpts binding_b = {}" "othersDiff dryOpts binding_b = {}"
    "roleDisplayName binding_b = ''demo/view''" "BindingNamespace dryOpts = ''demo''"
    "dryRunText dryOpts = '' (dry client run)''" "written (Trace initState) = []"
    by code_simp+
  have w: "written (Trace (fst (loopBody dryOpts binding_b initState))) =
     [''Removing demo/view from users [alice] in project demo (dry client run).'' @ [CHR 0x0A],
      ''Removing demo/view from groups [devs] in project demo (dry client run).'' @ [CHR 0x0A]]"
    using C9_report_lines[of binding_b dryOpts initState, THEN conjunct2, THEN conjunct1,
            THEN mp, OF conjI[OF out ok]]
    unfolding parts by (simp add: setList_def formatV_def)
  have sd: "Subjects binding_d = [bob, builder]" by (simp add: binding_d_def)
  have nb: "\<not> targeted (Users dryOpts) (Groups dryOpts) bob"
    by (simp add: dryOpts_def liveOpts_def targeted_def bob_def UserKind_def GroupKind_def)
  have ns: "\<not> targeted (Users dryOpts) (Groups dryOpts) builder"
    by (simp add: dryOpts_def liveOpts_def targeted_def builder_def UserKind_def GroupKind_def)
  have un: "\<forall>s \<in> set (Subjects binding_d). \<not> targeted (Users dryOpts) (Groups dryOpts) s"
    using nb ns by (simp add: sd)
  have sk: "loopBody dryOpts binding_d initState = (initState, None)"
    using C9_report_lines[of binding_d dryOpts initState, THEN conjunct1, THEN mp, OF un] .
  show ?thesis by (intro conjI out ok w sd nb ns sk)
qed

text \<open>
  Without the two provisos the statement fails. In the run below the client refuses every
  update: the binding \<open>b\<close> loses the user alice and the group devs, yet the only line written
  is that of the binding processed before it, none about the role \<open>demo/view\<close> of \<open>b\<close>. And
  in a client dry run the lines of \<open>b\<close> carry the dry run text before their period.
\<close>

theorem C9_report_lines_counterexample:
  "Output failOpts = [] \<and> DryRunStrategy failOpts = DryRunNone \<and>
   RoleBindings_List (Client failOpts) (BindingNamespace failOpts) =
     Inr [binding_a, binding_c, binding_b] \<and>
   usersDiff failOpts binding_b = {''alice''} \<and> groupsDiff failOpts binding_b = {''devs''} \<and>
   roleDisplayName binding_b = ''demo/view'' \<and>
   written (Trace (fst (Run failOpts))) =
     [''Removing edit from users [alice] in project demo.'' @ [CHR 0x0A]] \<and>
   Output dryOpts = [] \<and>
   written (Trace (fst (loopBody dryOpts binding_b initState))) =
     [''Removing demo/view from users [alice] in project demo (dry client run).'' @ [CHR 0x0A],
      ''Removing demo/view from groups [devs] in project demo (dry client run).'' @ [CHR 0x0A]]"
  by code_simp

subsection \<open>The order of the calls and of the lines\<close>

text \<open>The client calls of the loop follow the order of the items.\<close>

lemma loop_calls_sorted_wrt:
  "sorted_wrt R (map callName (calls (Trace st)) @ map Name bs) \<Longrightarrow>
   sorted_wrt R (map callName (calls (Trace (fst (loop opts bs st)))))"
proof (induction bs arbitrary: st)
  case Nil
  then show ?case by simp
next
  case (Cons b bs)
  obtain st1 e where body: "loopBody opts b st = (st1, e)" by (cases "loopBody opts b st")
  have step: "sorted_wrt R (map callName (calls (Trace st1)) @ map Name bs)"
    using loopBody_calls[of opts b st] Cons.prems body
    by (auto simp: sorted_wrt_append callName_mutation)
  show ?case
  proof (cases e)
    case None
    then show ?thesis using Cons.IH[OF step] body by simp
  next
    case (Some err)
    then show ?thesis using step body by (simp add: sorted_wrt_append)
  qed
qed

lemma Run_calls_sorted_wrt:
  assumes "RoleBindings_List (Client opts) (BindingNamespace opts) = Inr items"
    and "sorted_wrt R (map Name (sortReverse items))"
  shows "sorted_wrt R (map callName (calls (Trace (fst (Run opts)))))"
proof -
  have "sorted_wrt R (map callName (calls (Trace initState)) @ map Name (sortReverse items))"
    using assms(2) by (simp add: initState_def calls_def)
  then have "sorted_wrt R
      (map callName (calls (Trace (fst (loop opts (sortReverse items) initState)))))"
    by (rule loop_calls_sorted_wrt)
  then show ?thesis by (simp only: Run_calls[OF assms(1)])
qed

lemma Run_textual_written:
  assumes "RoleBindings_List (Client opts) (BindingNamespace opts) = Inr items"
    and "Output opts = []" and "snd (Run opts) = None"
  shows "written (Trace (fst (Run opts))) =
      concat (map (bindingLines opts) (sortReverse items)) @
      notBoundLines opts (usersRemoved (fst (Run opts))) (groupsRemoved (fst (Run opts)))"
    and "usersRemoved (fst (Run opts)) = \<Union> (usersDiff opts ` set items)"
    and "groupsRemoved (fst (Run opts)) = \<Union> (groupsDiff opts ` set items)"
    and "calls (Trace (fst (Run opts))) =
      (if DryRunStrategy opts = DryRunClient then []
       else map (mutation opts)
          (filter (\<lambda>b. length (remainingSubjects opts b) \<noteq> length (Subjects b))
             (sortReverse items)))"
proof -
  obtain st0 where l: "loop opts (sortReverse items) initState = (st0, None)"
    and r: "Run opts = (reportNotBound opts st0, None)"
    using assms by (rule Run_textual_ok)
  note ok = loop_textual_ok[OF assms(2) l]
  show "written (Trace (fst (Run opts))) =
      concat (map (bindingLines opts) (sortReverse items)) @
      notBoundLines opts (usersRemoved (fst (Run opts))) (groupsRemoved (fst (Run opts)))"
    using ok by (simp add: r reportNotBound_eq written_append written_map_Fprintf initState_def)
  show "usersRemoved (fst (Run opts)) = \<Union> (usersDiff opts ` set items)"
    using ok by (simp add: r reportNotBound_eq initState_def set_sortReverse)
  show "groupsRemoved (fst (Run opts)) = \<Union> (groupsDiff opts ` set items)"
    using ok by (simp add: r reportNotBound_eq initState_def set_sortReverse)
  show "calls (Trace (fst (Run opts))) =
      (if DryRunStrategy opts = DryRunClient then []
       else map (mutation opts)
          (filter (\<lambda>b. length (remainingSubjects opts b) \<noteq> length (Subjects b))
             (sortReverse items)))"
    using ok
    by (simp add: r reportNotBound_eq calls_append calls_map_Fprintf initState_def calls_def)
qed

text \<open>
  Claim C3. The items are sorted once, before the loop, and the loop runs over the sorted
  items: a rearrangement of the listed items in which no binding comes before one with a
  greater name, so that the client calls of every run are in descending order of binding
  name. Binding names of a namespace are distinct, and then the order is strictly
  descending, for the items and for the calls. In a run without output format that ends
  without error, the lines written are the lines of the sorted items, binding after
  binding, before the final lines; and when moreover the run dispatches and every binding
  has a diff, the calls are about the sorted items, one after the other. Whatever the
  order in which bindings named a, b and c are listed, the sorted order is c, b, a.
\<close>

theorem C3_descending_order:
  assumes "RoleBindings_List (Client opts) (BindingNamespace opts) = Inr items"
  shows "mset (sortReverse items) = mset items \<and>
     sorted_wrt (\<lambda>a b. Name b \<le> Name a) (sortReverse items) \<and>
     sorted_wrt (\<lambda>m n. n \<le> m) (map callName (calls (Trace (fst (Run opts))))) \<and>
     (distinct (map Name items) \<longrightarrow>
        sorted_wrt (\<lambda>a b. Name b < Name a) (sortReverse items) \<and>
        sorted_wrt (\<lambda>m n. n < m) (map callName (calls (Trace (fst (Run opts)))))) \<and>
     (Output opts = [] \<and> snd (Run opts) = None \<longrightarrow>
        written (Trace (fst (Run opts))) =
          concat (map (bindingLines opts) (sortReverse items)) @
          notBoundLines opts (usersRemoved (fst (Run opts))) (groupsRemoved (fst (Run opts)))) \<and>
     (Output opts = [] \<and> DryRunStrategy opts \<noteq> DryRunClient \<and> snd (Run opts) = None \<and>
      (\<forall>b \<in> set items. length (remainingSubjects opts b) \<noteq> length (Subjects b)) \<longrightarrow>
        map callName (calls (Trace (fst (Run opts)))) = map Name (sortReverse items)) \<and>
     (distinct (map Name items) \<and> set (map Name items) = {''a'', ''b'', ''c''} \<longrightarrow>
        map Name (sortReverse items) = [''c'', ''b'', ''a''])"
proof (intro conjI impI)
  show "mset (sortReverse items) = mset items" by (rule mset_sortReverse)
  show d: "sorted_wrt (\<lambda>a b. Name b \<le> Name a) (sortReverse items)"
    by (rule descending_sortReverse)
  show "sorted_wrt (\<lambda>m n. n \<le> m) (map callName (calls (Trace (fst (Run opts)))))"
    using d by (intro Run_calls_sorted_wrt[OF assms]) (simp add: sorted_wrt_map)
next
  assume dist: "distinct (map Name items)"
  show s: "sorted_wrt (\<lambda>a b. Name b < Name a) (sortReverse items)"
    using dist by (rule strictly_descending_sortReverse)
  show "sorted_wrt (\<lambda>m n. n < m) (map callName (calls (Trace (fst (Run opts)))))"
    using s by (intro Run_calls_sorted_wrt[OF assms]) (simp add: sorted_wrt_map)
next
  assume "Output opts = [] \<and> snd (Run opts) = None"
  then show "written (Trace (fst (Run opts))) =
          concat (map (bindingLines opts) (sortReverse items)) @
          notBoundLines opts (usersRemoved (fst (Run opts))) (groupsRemoved (fst (Run opts)))"
    using Run_textual_written(1)[OF assms] by simp
next
  assume h: "Output opts = [] \<and> DryRunStrategy opts \<noteq> DryRunClient \<and> snd (Run opts) = None \<and>
      (\<forall>b \<in> set items. length (remainingSubjects opts b) \<noteq> length (Subjects b))"
  then have all: "filter (\<lambda>b. length (remainingSubjects opts b) \<noteq> length (Subjects b))
      (sortReverse items) = sortReverse items"
    by (simp add: filter_id_conv set_sortReverse)
  have "calls (Trace (fst (Run opts))) = map (mutation opts) (sortReverse items)"
    using Run_textual_written(4)[OF assms, of ] h all by simp
  then show "map callName (calls (Trace (fst (Run opts)))) = map Name (sortReverse items)"
    by (simp add: callName_mutation comp_def)
next
  assume "distinct (map Name items) \<and> set (map Name items) = {''a'', ''b'', ''c''}"
  then have "map Name (sortReverse items) = rev [''a'', ''b'', ''c'']"
    by (intro names_sortReverse_unique) (simp_all add: abc_sorted)
  then show "map Name (sortReverse items) = [''c'', ''b'', ''a'']" by simp
qed

theorem C3_descending_order_witness:
  "RoleBindings_List (Client liveOpts) (BindingNamespace liveOpts) =
     Inr [binding_a, binding_c, binding_b] \<and>
   distinct (map Name [binding_a, binding_c, binding_b]) \<and>
   set (map Name [binding_a, binding_c, binding_b]) = {''a'', ''b'', ''c''} \<and>
   Output liveOpts = [] \<and> DryRunStrategy liveOpts \<noteq> DryRunClient \<and>
   snd (Run liveOpts) = None \<and>
   length (remainingSubjects liveOpts binding_a) \<noteq> length (Subjects binding_a) \<and>
   length (remainingSubjects liveOpts binding_c) \<noteq> length (Subjects binding_c) \<and>
   length (remainingSubjects liveOpts binding_b) \<noteq> length (Subjects binding_b) \<and>
   map callName (calls (Trace (fst (Run liveOpts)))) = [''c'', ''b'', ''a'']"
proof -
  have lst: "RoleBindings_List (Client liveOpts) (BindingNamespace liveOpts) =
      Inr [binding_a, binding_c, binding_b]"
    by (simp add: liveOpts_def okClient_def)
  have dist: "distinct (map Name [binding_a, binding_c, binding_b])"
    by (simp add: binding_a_def binding_b_def binding_c_def)
  have names: "set (map Name [binding_a, binding_c, binding_b]) = {''a'', ''b'', ''c''}"
    by (auto simp: binding_a_def binding_b_def binding_c_def)
  have out: "Output liveOpts = []" by (simp add: liveOpts_def)
  have live: "DryRunStrategy liveOpts \<noteq> DryRunClient" by (simp add: liveOpts_def)
  have ok: "snd (Run liveOpts) = None" by code_simp
  have ca: "length (remainingSubjects liveOpts binding_a) \<noteq> length (Subjects binding_a)"
    by code_simp
  have cc: "length (remainingSubjects liveOpts binding_c) \<noteq> length (Subjects binding_c)"
    by code_simp
  have cb: "length (remainingSubjects liveOpts binding_b) \<noteq> length (Subjects binding_b)"
    by code_simp
  have chg: "\<forall>b \<in> set [binding_a, binding_c, binding_b].
      length (remainingSubjects liveOpts b) \<noteq> length (Subjects b)"
    using ca cc cb by simp
  note t = C3_descending_order[OF lst]
  have n: "map Name (sortReverse [binding_a, binding_c, binding_b]) = [''c'', ''b'', ''a'']"
    using t[THEN conjunct2, THEN conjunct2, THEN conjunct2, THEN conjunct2, THEN conjunct2,
            THEN conjunct2, THEN mp, OF conjI[OF dist names]] .
  have c: "map callName (calls (Trace (fst (Run liveOpts)))) =
      map Name (sortReverse [binding_a, binding_c, binding_b])"
    using t[THEN conjunct2, THEN conjunct2, THEN conjunct2, THEN conjunct2, THEN conjunct2,
            THEN conjunct1, THEN mp, OF conjI[OF out conjI[OF live conjI[OF ok chg]]]] .
  show ?thesis
    by (intro conjI lst dist names out live ok ca cc cb trans[OF c n])
qed

subsection \<open>The client dry run against the dispatching run\<close>

lemma remainingSubjects_strategy:
  "remainingSubjects (opts\<lparr>DryRunStrategy := x\<rparr>) b = remainingSubjects opts b"
  by (simp add: remainingSubjects_def)

lemma diffs_strategy:
  "usersDiff (opts\<lparr>DryRunStrategy := x\<rparr>) b = usersDiff opts b"
  "groupsDiff (opts\<lparr>DryRunStrategy := x\<rparr>) b = groupsDiff opts b"
  by (simp_all add: usersDiff_eq groupsDiff_eq)

lemma insertDryRunText_line:
  "insertDryRunText (x @ ''.'' @ [CHR 0x0A]) = x @ '' (dry client run)'' @ ''.'' @ [CHR 0x0A]"
  by (simp add: insertDryRunText_def)

lemma removingLine_dry:
  "DryRunStrategy opts \<noteq> DryRunClient \<Longrightarrow>
   removingLine (opts\<lparr>DryRunStrategy := DryRunClient\<rparr>) r c d =
     insertDryRunText (removingLine opts r c d)"
proof -
  assume live: "DryRunStrategy opts \<noteq> DryRunClient"
  have "removingLine opts r c d =
     (''Removing '' @ r @ '' from '' @ c @ '' '' @ formatV (setList d) @
      '' in project '' @ BindingNamespace opts) @ ''.'' @ [CHR 0x0A]"
    using live by (simp add: removingLine_def dryRunText_def)
  then show ?thesis
    by (simp only: insertDryRunText_line) (simp add: removingLine_def dryRunText_def)
qed

lemma notBoundLine_dry:
  "DryRunStrategy opts \<noteq> DryRunClient \<Longrightarrow>
   notBoundLine (opts\<lparr>DryRunStrategy := DryRunClient\<rparr>) c d =
     insertDryRunText (notBoundLine opts c d)"
proof -
  assume live: "DryRunStrategy opts \<noteq> DryRunClient"
  have "notBoundLine opts c d =
     (c @ '' '' @ formatV (setList d) @ '' were not bound to roles in project '' @
      BindingNamespace opts) @ ''.'' @ [CHR 0x0A]"
    using live by (simp add: notBoundLine_def dryRunText_def)
  then show ?thesis
    by (simp only: insertDryRunText_line) (simp add: notBoundLine_def dryRunText_def)
qed

lemma bindingLines_dry:
  "DryRunStrategy opts \<noteq> DryRunClient \<Longrightarrow>
   bindingLines (opts\<lparr>DryRunStrategy := DryRunClient\<rparr>) b =
     map insertDryRunText (bindingLines opts b)"
  by (simp add: bindingLines_def diffs_strategy sasDiff_empty othersDiff_empty removingLine_dry)

lemma notBoundLines_dry:
  "DryRunStrategy opts \<noteq> DryRunClient \<Longrightarrow>
   notBoundLines (opts\<lparr>DryRunStrategy := DryRunClient\<rparr>) U G =
     map insertDryRunText (notBoundLines opts U G)"
  by (simp add: notBoundLines_def notBoundLine_dry)

lemma Run_dry_calls:
  "DryRunStrategy opts = DryRunClient \<Longrightarrow> calls (Trace (fst (Run opts))) = []"
proof (cases "RoleBindings_List (Client opts) (BindingNamespace opts)")
  case (Inl err)
  assume "DryRunStrategy opts = DryRunClient"
  show ?thesis using Inl by (simp add: Run_def initState_def calls_def)
next
  case (Inr items)
  assume dry: "DryRunStrategy opts = DryRunClient"
  show ?thesis
  proof (cases "Output opts = []")
    case True
    have "calls (Trace (fst (loop opts (sortReverse items) initState))) =
        calls (Trace initState)"
      using loop_dry[OF True dry, of "sortReverse items" initState] by (rule conjunct2)
    also have "\<dots> = []" by (simp add: initState_def calls_def)
    finally show ?thesis by (simp only: Run_calls[OF Inr])
  next
    case False
    then have "0 < length (Output opts)" by simp
    then have "calls (Trace (fst (loop opts (sortReverse items) initState))) = []"
      by (simp add: loop_accumulate initState_def calls_def)
    then show ?thesis by (simp only: Run_calls[OF Inr])
  qed
qed

text \<open>
  Claim C4, amended. A client dry run never calls the client: its trace has no update and
  no delete, whatever the listing and the output format. Without output format, whenever
  the dispatching run on the same input ends without error, the client dry run ends
  without error too, computes the same four aggregate sets of removed names, and writes
  the same lines in the same order except that each line of the dry run carries the text
  \<^verbatim>\<open> (dry client run)\<close> before its final period.
\<close>

theorem C4_dry_run_against_live:
  "(DryRunStrategy opts = DryRunClient \<longrightarrow> calls (Trace (fst (Run opts))) = []) \<and>
   (Output opts = [] \<and> DryRunStrategy opts \<noteq> DryRunClient \<and> snd (Run opts) = None \<longrightarrow>
      snd (Run (opts\<lparr>DryRunStrategy := DryRunClient\<rparr>)) = None \<and>
      written (Trace (fst (Run (opts\<lparr>DryRunStrategy := DryRunClient\<rparr>)))) =
        map insertDryRunText (written (Trace (fst (Run opts)))) \<and>
      usersRemoved (fst (Run (opts\<lparr>DryRunStrategy := DryRunClient\<rparr>))) =
        usersRemoved (fst (Run opts)) \<and>
      groupsRemoved (fst (Run (opts\<lparr>DryRunStrategy := DryRunClient\<rparr>))) =
        groupsRemoved (fst (Run opts)) \<and>
      sasRemoved (fst (Run (opts\<lparr>DryRunStrategy := DryRunClient\<rparr>))) =
        sasRemoved (fst (Run opts)) \<and>
      othersRemoved (fst (Run (opts\<lparr>DryRunStrategy := DryRunClient\<rparr>))) =
        othersRemoved (fst (Run opts)))"
proof (intro conjI impI)
  assume "DryRunStrategy opts = DryRunClient"
  then show "calls (Trace (fst (Run opts))) = []" by (rule Run_dry_calls)
next
  assume h: "Output opts = [] \<and> DryRunStrategy opts \<noteq> DryRunClient \<and> snd (Run opts) = None"
  let ?dry = "opts\<lparr>DryRunStrategy := DryRunClient\<rparr>"
  from h have out: "Output opts = []" and live: "DryRunStrategy opts \<noteq> DryRunClient"
    and ok: "snd (Run opts) = None" by simp_all
  obtain items where lst: "RoleBindings_List (Client opts) (BindingNamespace opts) = Inr items"
    using ok by (cases "RoleBindings_List (Client opts) (BindingNamespace opts)")
      (simp_all add: Run_def)
  have lstD: "RoleBindings_List (Client ?dry) (BindingNamespace ?dry) = Inr items"
    using lst by simp
  have outD: "Output ?dry = []" using out by simp
  have dryD: "DryRunStrategy ?dry = DryRunClient" by simp
  have "snd (loop ?dry (sortReverse items) initState) = None"
    using loop_dry[OF outD dryD, of "sortReverse items" initState] by (rule conjunct1)
  then obtain stD where "loop ?dry (sortReverse items) initState = (stD, None)"
    by (metis prod.collapse)
  then show okD: "snd (Run ?dry) = None"
    by (simp add: Run_textual[OF lstD outD])
  note L = Run_textual_written[OF lst out ok]
  note D = Run_textual_written[OF lstD outD okD]
  show u: "usersRemoved (fst (Run ?dry)) = usersRemoved (fst (Run opts))"
    unfolding L(2) D(2) by (simp add: diffs_strategy)
  show g: "groupsRemoved (fst (Run ?dry)) = groupsRemoved (fst (Run opts))"
    unfolding L(3) D(3) by (simp add: diffs_strategy)
  show "written (Trace (fst (Run ?dry))) = map insertDryRunText (written (Trace (fst (Run opts))))"
    unfolding L(1) D(1) u g
  proof -
    have bl: "bindingLines ?dry = (\<lambda>b. map insertDryRunText (bindingLines opts b))"
      by (rule ext) (rule bindingLines_dry[OF live])
    show "concat (map (bindingLines ?dry) (sortReverse items)) @
        notBoundLines ?dry (usersRemoved (fst (Run opts))) (groupsRemoved (fst (Run opts))) =
      map insertDryRunText
        (concat (map (bindingLines opts) (sortReverse items)) @
         notBoundLines opts (usersRemoved (fst (Run opts))) (groupsRemoved (fst (Run opts))))"
      by (simp add: bl notBoundLines_dry[OF live] map_concat comp_def)
  qed
  show "sasRemoved (fst (Run ?dry)) = sasRemoved (fst (Run opts))"
    by (simp add: Run_sas_others)
  show "othersRemoved (fst (Run ?dry)) = othersRemoved (fst (Run opts))"
    by (simp add: Run_sas_others)
qed

theorem C4_dry_run_witness:
  "DryRunStrategy dryOpts = DryRunClient \<and> calls (Trace (fst (Run dryOpts))) = [] \<and>
   Output liveOpts = [] \<and> DryRunStrategy liveOpts \<noteq> DryRunClient \<and>
   snd (Run liveOpts) = None \<and>
   snd (Run (liveOpts\<lparr>DryRunStrategy := DryRunClient\<rparr>)) = None \<and>
   written (Trace (fst (Run (liveOpts\<lparr>DryRunStrategy := DryRunClient\<rparr>)))) =
     map insertDryRunText (written (Trace (fst (Run liveOpts)))) \<and>
   usersRemoved (fst (Run (liveOpts\<lparr>DryRunStrategy := DryRunClient\<rparr>))) =
     usersRemoved (fst (Run liveOpts))"
proof -
  have dry: "DryRunStrategy dryOpts = DryRunClient" by (simp add: dryOpts_def)
  have out: "Output liveOpts = []" by (simp add: liveOpts_def)
  have live: "DryRunStrategy liveOpts \<noteq> DryRunClient" by (simp add: liveOpts_def)
  have ok: "snd (Run liveOpts) = None" by code_simp
  note c = C4_dry_run_against_live[of dryOpts, THEN conjunct1, THEN mp, OF dry]
  note t = C4_dry_run_against_live[of liveOpts, THEN conjunct2, THEN mp,
      OF conjI[OF out conjI[OF live ok]]]
  show ?thesis
    by (intro conjI dry c out live ok t[THEN conjunct1] t[THEN conjunct2, THEN conjunct1]
          t[THEN conjunct2, THEN conjunct2, THEN conjunct1])
qed

text \<open>
  The two reports are not identical: on the same listing and the same request, every line
  of the client dry run differs from the line of the dispatching run by the dry run text.
\<close>

theorem C4_dry_run_counterexample:
  "Output liveOpts = [] \<and> DryRunStrategy liveOpts = DryRunNone \<and>
   Output dryOpts = [] \<and> DryRunStrategy dryOpts = DryRunClient \<and>
   Users dryOpts = Users liveOpts \<and> Groups dryOpts = Groups liveOpts \<and>
   BindingNamespace dryOpts = BindingNamespace liveOpts \<and>
   RoleBindings_List (Client dryOpts) ''demo'' = RoleBindings_List (Client liveOpts) ''demo'' \<and>
   snd (Run liveOpts) = None \<and>
   written (Trace (fst (Run liveOpts))) =
     [''Removing edit from users [alice] in project demo.'' @ [CHR 0x0A],
      ''Removing demo/view from users [alice] in project demo.'' @ [CHR 0x0A],
      ''Removing demo/view from groups [devs] in project demo.'' @ [CHR 0x0A],
      ''Removing admin from users [alice] in project demo.'' @ [CHR 0x0A],
      ''Users [carol] were not bound to roles in project demo.'' @ [CHR 0x0A],
      ''Groups [ops] were not bound to roles in project demo.'' @ [CHR 0x0A]] \<and>
   written (Trace (fst (Run dryOpts))) =
     [''Removing edit from users [alice] in project demo (dry client run).'' @ [CHR 0x0A],
      ''Removing demo/view from users [alice] in project demo (dry client run).'' @ [CHR 0x0A],
      ''Removing demo/view from groups [devs] in project demo (dry client run).'' @ [CHR 0x0A],
      ''Removing admin from users [alice] in project demo (dry client run).'' @ [CHR 0x0A],
      ''Users [carol] were not bound to roles in project demo (dry client run).'' @ [CHR 0x0A],
      ''Groups [ops] were not bound to roles in project demo (dry client run).'' @ [CHR 0x0A]] \<and>
   written (Trace (fst (Run dryOpts))) \<noteq> written (Trace (fst (Run liveOpts)))"
  by code_simp

subsection \<open>The names that were bound nowhere\<close>

lemma loop_untouched:
  "\<forall>b \<in> set bs. length (remainingSubjects opts b) = length (Subjects b) \<Longrightarrow>
   loop opts bs st = (st, None)"
  by (induction bs) (simp_all add: loopBody_cases)

lemma notBoundLines_explicit:
  "notBoundLines opts U G =
     (if set (Users opts) - U \<noteq> {}
      then [''Users '' @ formatV (setList (set (Users opts) - U)) @
            '' were not bound to roles in project '' @ BindingNamespace opts @
            dryRunText opts @ ''.'' @ [CHR 0x0A]] else []) @
     (if set (Groups opts) - G \<noteq> {}
      then [''Groups '' @ formatV (setList (set (Groups opts) - G)) @
            '' were not bound to roles in project '' @ BindingNamespace opts @
            dryRunText opts @ ''.'' @ [CHR 0x0A]] else [])"
  by (simp add: notBoundLines_def notBoundLine_def)

text \<open>
  Claim C5, amended. Let the listing succeed and no output format be set. When the run ends
  without error, its aggregate sets of removed users and groups are the unions of the
  differences of all listed bindings; after the lines of the bindings it writes, for the
  requested users that are not in the aggregate set, if there are any, exactly one line
  \<^verbatim>\<open>Users <names> were not bound to roles in project <namespace><dryRunText>.\<close> and then
  likewise one line for the groups, where the dry run text is \<^verbatim>\<open> (dry client run)\<close> in a
  client dry run and empty otherwise; and a requested name is in that difference exactly
  when no listed binding has a subject of that kind and name. When no subject of any
  listed binding is targeted, the run ends without error, makes no client call, and writes
  these final lines only, for all requested names.
\<close>

theorem C5_not_bound_report:
  assumes "RoleBindings_List (Client opts) (BindingNamespace opts) = Inr items"
    and "Output opts = []"
  shows "(snd (Run opts) = None \<longrightarrow>
      usersRemoved (fst (Run opts)) = \<Union> (usersDiff opts ` set items) \<and>
      groupsRemoved (fst (Run opts)) = \<Union> (groupsDiff opts ` set items) \<and>
      written (Trace (fst (Run opts))) =
        concat (map (bindingLines opts) (sortReverse items)) @
        (if set (Users opts) - usersRemoved (fst (Run opts)) \<noteq> {}
         then [''Users '' @
               formatV (setList (set (Users opts) - usersRemoved (fst (Run opts)))) @
               '' were not bound to roles in project '' @ BindingNamespace opts @
               dryRunText opts @ ''.'' @ [CHR 0x0A]] else []) @
        (if set (Groups opts) - groupsRemoved (fst (Run opts)) \<noteq> {}
         then [''Groups '' @
               formatV (setList (set (Groups opts) - groupsRemoved (fst (Run opts)))) @
               '' were not bound to roles in project '' @ BindingNamespace opts @
               dryRunText opts @ ''.'' @ [CHR 0x0A]] else []) \<and>
      (\<forall>u. u \<in> set (Users opts) - usersRemoved (fst (Run opts)) \<longleftrightarrow>
         u \<in> set (Users opts) \<and>
         (\<forall>b \<in> set items. \<forall>s \<in> set (Subjects b).
            \<not> (Subject_Kind s = UserKind \<and> Subject_Name s = u))) \<and>
      (\<forall>g. g \<in> set (Groups opts) - groupsRemoved (fst (Run opts)) \<longleftrightarrow>
         g \<in> set (Groups opts) \<and>
         (\<forall>b \<in> set items. \<forall>s \<in> set (Subjects b).
            \<not> (Subject_Kind s = GroupKind \<and> Subject_Name s = g)))) \<and>
    ((\<forall>b \<in> set items. \<forall>s \<in> set (Subjects b). \<not> targeted (Users opts) (Groups opts) s) \<longrightarrow>
      snd (Run opts) = None \<and> calls (Trace (fst (Run opts))) = [] \<and>
      written (Trace (fst (Run opts))) =
        (if set (Users opts) \<noteq> {}
         then [''Users '' @ formatV (setList (set (Users opts))) @
               '' were not bound to roles in project '' @ BindingNamespace opts @
               dryRunText opts @ ''.'' @ [CHR 0x0A]] else []) @
        (if set (Groups opts) \<noteq> {}
         then [''Groups '' @ formatV (setList (set (Groups opts))) @
               '' were not bound to roles in project '' @ BindingNamespace opts @
               dryRunText opts @ ''.'' @ [CHR 0x0A]] else []))"
proof (intro conjI impI)
  assume ok: "snd (Run opts) = None"
  note R = Run_textual_written[OF assms ok]
  show u: "usersRemoved (fst (Run opts)) = \<Union> (usersDiff opts ` set items)" by (rule R(2))
  show g: "groupsRemoved (fst (Run opts)) = \<Union> (groupsDiff opts ` set items)" by (rule R(3))
  show "written (Trace (fst (Run opts))) =
        concat (map (bindingLines opts) (sortReverse items)) @
        (if set (Users opts) - usersRemoved (fst (Run opts)) \<noteq> {}
         then [''Users '' @
               formatV (setList (set (Users opts) - usersRemoved (fst (Run opts)))) @
               '' were not bound to roles in project '' @ BindingNamespace opts @
               dryRunText opts @ ''.'' @ [CHR 0x0A]] else []) @
        (if set (Groups opts) - groupsRemoved (fst (Run opts)) \<noteq> {}
         then [''Groups '' @
               formatV (setList (set (Groups opts) - groupsRemoved (fst (Run opts)))) @
               '' were not bound to roles in project '' @ BindingNamespace opts @
               dryRunText opts @ ''.'' @ [CHR 0x0A]] else [])"
    using R(1) unfolding notBoundLines_explicit .
  show "\<forall>u. u \<in> set (Users opts) - usersRemoved (fst (Run opts)) \<longleftrightarrow>
         u \<in> set (Users opts) \<and>
         (\<forall>b \<in> set items. \<forall>s \<in> set (Subjects b).
            \<not> (Subject_Kind s = UserKind \<and> Subject_Name s = u))"
    unfolding u usersDiff_eq by auto
  show "\<forall>g. g \<in> set (Groups opts) - groupsRemoved (fst (Run opts)) \<longleftrightarrow>
         g \<in> set (Groups opts) \<and>
         (\<forall>b \<in> set items. \<forall>s \<in> set (Subjects b).
            \<not> (Subject_Kind s = GroupKind \<and> Subject_Name s = g))"
    unfolding g groupsDiff_eq by auto
next
  assume none: "\<forall>b \<in> set items. \<forall>s \<in> set (Subjects b).
      \<not> targeted (Users opts) (Groups opts) s"
  then have "\<forall>b \<in> set (sortReverse items).
      length (remainingSubjects opts b) = length (Subjects b)"
    by (simp add: unchanged_iff set_sortReverse)
  then have l: "loop opts (sortReverse items) initState = (initState, None)"
    by (rule loop_untouched)
  have run: "Run opts = (reportNotBound opts initState, None)"
    by (simp add: Run_textual[OF assms] l)
  show "snd (Run opts) = None" by (simp add: run)
  show "calls (Trace (fst (Run opts))) = []"
    by (simp add: run reportNotBound_eq initState_def calls_map_Fprintf)
  show "written (Trace (fst (Run opts))) =
        (if set (Users opts) \<noteq> {}
         then [''Users '' @ formatV (setList (set (Users opts))) @
               '' were not bound to roles in project '' @ BindingNamespace opts @
               dryRunText opts @ ''.'' @ [CHR 0x0A]] else []) @
        (if set (Groups opts) \<noteq> {}
         then [''Groups '' @ formatV (setList (set (Groups opts))) @
               '' were not bound to roles in project '' @ BindingNamespace opts @
               dryRunText opts @ ''.'' @ [CHR 0x0A]] else [])"
    by (simp add: run reportNotBound_eq initState_def written_map_Fprintf
          notBoundLines_explicit)
qed

theorem C5_not_bound_report_witness:
  "RoleBindings_List (Client liveOpts) (BindingNamespace liveOpts) =
     Inr [binding_a, binding_c, binding_b] \<and>
   Output liveOpts = [] \<and> snd (Run liveOpts) = None \<and>
   usersRemoved (fst (Run liveOpts)) =
     \<Union> (usersDiff liveOpts ` set [binding_a, binding_c, binding_b]) \<and>
   RoleBindings_List (Client strangerOpts) (BindingNamespace strangerOpts) =
     Inr [binding_a, binding_c, binding_b] \<and>
   Output strangerOpts = [] \<and>
   list_all (\<lambda>b. list_all (\<lambda>s. \<not> targeted (Users strangerOpts) (Groups strangerOpts) s)
      (Subjects b)) [binding_a, binding_c, binding_b] \<and>
   snd (Run strangerOpts) = None \<and>
   calls (Trace (fst (Run strangerOpts))) = [] \<and>
   written (Trace (fst (Run strangerOpts))) =
     [''Users [zoe] were not bound to roles in project demo.'' @ [CHR 0x0A]]"
proof -
  have lst: "RoleBindings_List (Client liveOpts) (BindingNamespace liveOpts) =
      Inr [binding_a, binding_c, binding_b]"
    by (simp add: liveOpts_def okClient_def)
  have out: "Output liveOpts = []" by (simp add: liveOpts_def)
  have ok: "snd (Run liveOpts) = None" by code_simp
  have lst': "RoleBindings_List (Client strangerOpts) (BindingNamespace strangerOpts) =
      Inr [binding_a, binding_c, binding_b]"
    by (simp add: strangerOpts_def liveOpts_def okClient_def)
  have out': "Output strangerOpts = []" by (simp add: strangerOpts_def liveOpts_def)
  have none: "\<forall>b \<in> set [binding_a, binding_c, binding_b]. \<forall>s \<in> set (Subjects b).
      \<not> targeted (Users strangerOpts) (Groups strangerOpts) s"
    by (simp add: strangerOpts_def liveOpts_def targeted_def binding_a_def binding_b_def
          binding_c_def alice_def bob_def devs_def builder_def UserKind_def GroupKind_def)
  have none': "list_all (\<lambda>b. list_all (\<lambda>s. \<not> targeted (Users strangerOpts) (Groups strangerOpts) s)
      (Subjects b)) [binding_a, binding_c, binding_b]"
    using none unfolding list_all_iff .
  have parts: "Users strangerOpts = [''zoe'']" "Groups strangerOpts = []"
    "BindingNamespace strangerOpts = ''demo''" "dryRunText strangerOpts = []"
    by (simp_all add: strangerOpts_def liveOpts_def dryRunText_def)
  note t = C5_not_bound_report[OF lst out, THEN conjunct1, THEN mp, OF ok]
  note n = C5_not_bound_report[OF lst' out', THEN conjunct2, THEN mp, OF none]
  have w: "written (Trace (fst (Run strangerOpts))) =
     [''Users [zoe] were not bound to roles in project demo.'' @ [CHR 0x0A]]"
    using n[THEN conjunct2, THEN conjunct2] unfolding parts
    by (simp add: setList_def formatV_def)
  show ?thesis
    by (intro conjI lst out ok t[THEN conjunct1] lst' out' none' n[THEN conjunct1]
          n[THEN conjunct2, THEN conjunct1] w)
qed

text \<open>
  The line as first stated, ending in the namespace and a period, is not what a client dry
  run writes: there the two final lines carry the dry run text before the period.
\<close>

theorem C5_not_bound_report_counterexample:
  "Output dryOpts = [] \<and> snd (Run dryOpts) = None \<and>
   Users dryOpts = [''alice'', ''carol''] \<and> Groups dryOpts = [''devs'', ''ops''] \<and>
   set (Users dryOpts) - usersRemoved (fst (Run dryOpts)) = {''carol''} \<and>
   set (Groups dryOpts) - groupsRemoved (fst (Run dryOpts)) = {''ops''} \<and>
   drop 4 (written (Trace (fst (Run dryOpts)))) =
     [''Users [carol] were not bound to roles in project demo (dry client run).'' @ [CHR 0x0A],
      ''Groups [ops] were not bound to roles in project demo (dry client run).'' @ [CHR 0x0A]] \<and>
   ''Users [carol] were not bound to roles in project demo.'' @ [CHR 0x0A]
     \<notin> set (written (Trace (fst (Run dryOpts)))) \<and>
   ''Groups [ops] were not bound to roles in project demo.'' @ [CHR 0x0A]
     \<notin> set (written (Trace (fst (Run dryOpts))))"
  by code_simp

end
